theory Spec2Isabelle
  imports Main
begin

section \<open>JavaScript strings\<close>

text \<open>
  A JavaScript string is a sequence of 16-bit code units. It is modelled as a
  \<^typ>\<open>string\<close>, one \<^typ>\<open>char\<close> for each code unit, so the model covers the strings whose
  code units are below 256: ASCII, the no-break space and the accented Latin letters of
  U+00A0 to U+00FF. On these strings white space, line terminators and the case
  mappings are those of the language.
\<close>

definition upper_letters :: string where
  "upper_letters = ''ABCDEFGHIJKLMNOPQRSTUVWXYZ''"

definition lower_letters :: string where
  "lower_letters = ''abcdefghijklmnopqrstuvwxyz''"

text \<open>The capital letters U+00C0 to U+00DE (without the multiplication sign U+00D7)
  and the small letters U+00E0 to U+00FE (without the division sign U+00F7) that
  correspond to them.\<close>

definition latin_capitals :: string where
  "latin_capitals =
     [CHR 0xC0, CHR 0xC1, CHR 0xC2, CHR 0xC3, CHR 0xC4, CHR 0xC5, CHR 0xC6, CHR 0xC7,
      CHR 0xC8, CHR 0xC9, CHR 0xCA, CHR 0xCB, CHR 0xCC, CHR 0xCD, CHR 0xCE, CHR 0xCF,
      CHR 0xD0, CHR 0xD1, CHR 0xD2, CHR 0xD3, CHR 0xD4, CHR 0xD5, CHR 0xD6, CHR 0xD8,
      CHR 0xD9, CHR 0xDA, CHR 0xDB, CHR 0xDC, CHR 0xDD, CHR 0xDE]"

definition latin_smalls :: string where
  "latin_smalls =
     [CHR 0xE0, CHR 0xE1, CHR 0xE2, CHR 0xE3, CHR 0xE4, CHR 0xE5, CHR 0xE6, CHR 0xE7,
      CHR 0xE8, CHR 0xE9, CHR 0xEA, CHR 0xEB, CHR 0xEC, CHR 0xED, CHR 0xEE, CHR 0xEF,
      CHR 0xF0, CHR 0xF1, CHR 0xF2, CHR 0xF3, CHR 0xF4, CHR 0xF5, CHR 0xF6, CHR 0xF8,
      CHR 0xF9, CHR 0xFA, CHR 0xFB, CHR 0xFC, CHR 0xFD, CHR 0xFE]"

text \<open>The classes \<open>[A-Z]\<close>, \<open>[a-z]\<close> and \<open>[0-9]\<close> of the regular expressions.\<close>

definition is_upper :: "char \<Rightarrow> bool" where
  "is_upper c = (c \<in> set upper_letters)"

definition is_lower :: "char \<Rightarrow> bool" where
  "is_lower c = (c \<in> set lower_letters)"

definition is_digit :: "char \<Rightarrow> bool" where
  "is_digit c = (c \<in> set ''0123456789'')"

text \<open>
  \<open>toLowerCase\<close> maps every capital letter, ASCII or accented, to its small letter and
  changes no other code unit below 256; the result stays below 256.
\<close>

definition lower_char :: "char \<Rightarrow> char" where
  "lower_char c =
     (case map_of (zip (upper_letters @ latin_capitals) (lower_letters @ latin_smalls)) c of
        Some d \<Rightarrow> d
      | None \<Rightarrow> c)"

definition toLowerCase :: "string \<Rightarrow> string" where
  "toLowerCase s = map lower_char s"

text \<open>
  \<open>toUpperCase\<close> can leave the range: it maps every small letter to its capital, the
  sharp s U+00DF to the two letters "SS", the micro sign U+00B5 to U+039C and the
  letter U+00FF to U+0178. Its result is therefore given as code units, and
  \<open>code_units\<close> gives the code units of a string of the model.
\<close>

definition upper_units :: "char \<Rightarrow> int list" where
  "upper_units c =
     (case map_of (zip (lower_letters @ latin_smalls) (upper_letters @ latin_capitals)) c of
        Some d \<Rightarrow> [of_char d]
      | None \<Rightarrow>
          if c = CHR 0xDF then [83, 83]
          else if c = CHR 0xB5 then [924]
          else if c = CHR 0xFF then [376]
          else [of_char c])"

definition toUpperCase :: "string \<Rightarrow> int list" where
  "toUpperCase s = concat (map upper_units s)"

definition code_units :: "string \<Rightarrow> int list" where
  "code_units s = map of_char s"

text \<open>
  The small letters below 256: \<open>a\<close> to \<open>z\<close>, U+00E0 to U+00FE without the division
  sign, the sharp s, the micro sign and U+00FF.
\<close>

definition small_letters :: string where
  "small_letters = lower_letters @ latin_smalls @ [CHR 0xDF, CHR 0xB5, CHR 0xFF]"

text \<open>
  Line terminators (line feed, carriage return) and white space (tab, line feed,
  vertical tab, form feed, carriage return, space, no-break space): the class \<open>\s\<close>
  and what \<open>trim\<close> removes.
\<close>

definition is_line_terminator :: "char \<Rightarrow> bool" where
  "is_line_terminator c = (c \<in> set [CHR 0x0A, CHR 0x0D])"

definition is_space :: "char \<Rightarrow> bool" where
  "is_space c =
     (c \<in> set [CHR 0x09, CHR 0x0A, CHR 0x0B, CHR 0x0C, CHR 0x0D, CHR 0x20, CHR 0xA0])"

definition trim :: "string \<Rightarrow> string" where
  "trim s = rev (dropWhile is_space (rev (dropWhile is_space s)))"

fun startsWith :: "string \<Rightarrow> string \<Rightarrow> bool" where
  "startsWith s [] = True"
| "startsWith [] (t # ts) = False"
| "startsWith (c # cs) (t # ts) = (c = t \<and> startsWith cs ts)"

definition endsWith :: "string \<Rightarrow> string \<Rightarrow> bool" where
  "endsWith s t = startsWith (rev s) (rev t)"

text \<open>\<open>s.includes(t)\<close>: \<open>t\<close> occurs in \<open>s\<close> at some position, tried from the left.\<close>

fun str_includes :: "string \<Rightarrow> string \<Rightarrow> bool" where
  "str_includes [] t = (t = [])"
| "str_includes (c # cs) t = (startsWith (c # cs) t \<or> str_includes cs t)"

section \<open>Kind inference\<close>

datatype type_kind = OBJECT | INPUT_OBJECT | ENUM | SCALAR | INTERFACE | UNION

definition inferTypeKind :: "string \<Rightarrow> type_kind" where
  "inferTypeKind typeName =
     (if endsWith typeName ''Input'' then INPUT_OBJECT
      else if endsWith typeName ''Enum'' \<or> toUpperCase typeName = code_units typeName
        then ENUM
      else if typeName \<in> set [''String'', ''Int'', ''Float'', ''Boolean'', ''ID'', ''JSON''] then SCALAR
      else OBJECT)"

section \<open>The document tree and cheerio selections\<close>

text \<open>
  The tree that \<open>cheerio.load\<close> builds: an element has a tag name (lower case) and child
  nodes; a text node has its data. Comments and attributes play no part in the parser
  (its selectors name tags only, and \<open>text()\<close> skips comments) and are left out.
\<close>

datatype node = Element string "node list" | Text string

text \<open>\<open>textContent\<close> of a node: the data of all text nodes below it, in document order.\<close>

fun textContent :: "node \<Rightarrow> string" where
  "textContent (Text d) = d"
| "textContent (Element t cs) = concat (map textContent cs)"

text \<open>
  A handle on one element of the tree: where it is (the child indices from the root,
  which order the elements of a document as the document does), its tag, its child nodes
  and the sibling nodes after it.
\<close>

record element =
  path :: "nat list"
  tagName :: string
  childNodes :: "node list"
  following :: "node list"

text \<open>
  All elements below a list of sibling nodes, in document order; \<open>p\<close> is the path of the
  parent and \<open>i\<close> the index of the first sibling.
\<close>

fun elems_in :: "nat list \<Rightarrow> nat \<Rightarrow> node list \<Rightarrow> element list" where
  "elems_in p i [] = []"
| "elems_in p i (Text d # ns) = elems_in p (Suc i) ns"
| "elems_in p i (Element t cs # ns) =
     \<lparr>path = p @ [i], tagName = t, childNodes = cs, following = ns\<rparr>
       # elems_in (p @ [i]) 0 cs @ elems_in p (Suc i) ns"

definition descendants :: "element \<Rightarrow> element list" where
  "descendants e = elems_in (path e) 0 (childNodes e)"

text \<open>The element children of an element.\<close>

fun child_elems :: "nat list \<Rightarrow> nat \<Rightarrow> node list \<Rightarrow> element list" where
  "child_elems p i [] = []"
| "child_elems p i (Text d # ns) = child_elems p (Suc i) ns"
| "child_elems p i (Element t cs # ns) =
     \<lparr>path = p @ [i], tagName = t, childNodes = cs, following = ns\<rparr>
       # child_elems p (Suc i) ns"

definition children :: "element \<Rightarrow> element list" where
  "children e = child_elems (path e) 0 (childNodes e)"

text \<open>The first element among sibling nodes: \<open>nextElementSibling\<close> skips text nodes.\<close>

fun first_elem :: "nat list \<Rightarrow> nat \<Rightarrow> node list \<Rightarrow> element option" where
  "first_elem p i [] = None"
| "first_elem p i (Text d # ns) = first_elem p (Suc i) ns"
| "first_elem p i (Element t cs # ns) =
     Some \<lparr>path = p @ [i], tagName = t, childNodes = cs, following = ns\<rparr>"

definition nextElementSibling :: "element \<Rightarrow> element option" where
  "nextElementSibling e =
     first_elem (butlast (path e)) (Suc (last (path e))) (following e)"

text \<open>
  A cheerio object is a list of elements. \<open>next()\<close> takes, element by element, the next
  element sibling of every element that has one; \<open>is(tags)\<close> holds when some element has
  one of the tags; \<open>text()\<close> concatenates the text of all elements.
\<close>

type_synonym cheerio = "element list"

definition sel_next :: "cheerio \<Rightarrow> cheerio" where
  "sel_next sel = List.map_filter nextElementSibling sel"

definition sel_is :: "string list \<Rightarrow> cheerio \<Rightarrow> bool" where
  "sel_is tags sel = list_ex (\<lambda>e. tagName e \<in> set tags) sel"

definition elem_text :: "element \<Rightarrow> string" where
  "elem_text e = concat (map textContent (childNodes e))"

definition sel_text :: "cheerio \<Rightarrow> string" where
  "sel_text sel = concat (map elem_text sel)"

text \<open>
  \<open>find(selector)\<close> searches below the selected elements: it starts from their element
  children, leaves out a repeated start and a start that lies inside another start
  (\<open>removeSubsets\<close>), and walks the remaining subtrees depth-first in that order, keeping
  the elements that match. \<open>first_seen\<close> keeps each element of a list at its first
  occurrence (\<open>remdups\<close> keeps the last one), and \<open>is_above p q\<close> says that the element at
  path \<open>p\<close> is a proper ancestor of the one at path \<open>q\<close>.
\<close>

definition first_seen :: "'a list \<Rightarrow> 'a list" where
  "first_seen ns = rev (remdups (rev ns))"

fun is_above :: "nat list \<Rightarrow> nat list \<Rightarrow> bool" where
  "is_above [] q = (q \<noteq> [])"
| "is_above (a # p) [] = False"
| "is_above (a # p) (b # q) = (a = b \<and> is_above p q)"

definition removeSubsets :: "cheerio \<Rightarrow> cheerio" where
  "removeSubsets es =
     filter (\<lambda>e. \<not> list_ex (\<lambda>a. is_above (path a) (path e)) es) (first_seen es)"

definition find_roots :: "cheerio \<Rightarrow> cheerio" where
  "find_roots sel = removeSubsets (concat (map children sel))"

text \<open>\<open>find(tag)\<close>: the elements with that tag in the subtrees of the starts.\<close>

definition sel_find :: "string \<Rightarrow> cheerio \<Rightarrow> cheerio" where
  "sel_find t sel =
     concat (map (\<lambda>r. filter (\<lambda>d. tagName d = t) (r # descendants r)) (find_roots sel))"

text \<open>
  \<open>find('tbody tr')\<close>: the \<open>tr\<close> elements that have a \<open>tbody\<close> above them below a selected
  element. \<open>rows_in tb\<close> walks a list of sibling nodes, \<open>tb\<close> telling whether a \<open>tbody\<close>
  has been passed on the way down from the start.
\<close>

fun rows_in :: "bool \<Rightarrow> nat list \<Rightarrow> nat \<Rightarrow> node list \<Rightarrow> element list" where
  "rows_in tb p i [] = []"
| "rows_in tb p i (Text d # ns) = rows_in tb p (Suc i) ns"
| "rows_in tb p i (Element t cs # ns) =
     (if tb \<and> t = ''tr''
      then [\<lparr>path = p @ [i], tagName = t, childNodes = cs, following = ns\<rparr>]
      else [])
     @ rows_in (tb \<or> t = ''tbody'') (p @ [i]) 0 cs
     @ rows_in tb p (Suc i) ns"

definition find_tbody_tr :: "cheerio \<Rightarrow> cheerio" where
  "find_tbody_tr table =
     concat (map (\<lambda>r. rows_in (tagName r = ''tbody'') (path r) 0 (childNodes r))
               (find_roots table))"

text \<open>\<open>$(tags)\<close> on the whole document, whose top-level nodes are \<open>doc\<close>.\<close>

definition select_tags :: "string list \<Rightarrow> node list \<Rightarrow> cheerio" where
  "select_tags tags doc = filter (\<lambda>e. tagName e \<in> set tags) (elems_in [] 0 doc)"

text \<open>
  The loops of the parser advance a selection with \<open>next()\<close> until it is empty; the
  number of sibling nodes still ahead of its elements decreases at every step.
\<close>

definition ahead :: "cheerio \<Rightarrow> nat" where
  "ahead sel = sum_list (map (\<lambda>e. Suc (length (following e))) sel)"

lemma first_elem_following:
  "first_elem p i ns = Some e \<Longrightarrow> length (following e) < length ns"
  by (induction p i ns rule: first_elem.induct) auto

lemma next_following:
  "nextElementSibling e = Some e' \<Longrightarrow> length (following e') < length (following e)"
  unfolding nextElementSibling_def by (rule first_elem_following)

lemma ahead_map_filter:
  "ahead (List.map_filter nextElementSibling sel) + length sel \<le> ahead sel"
proof (induction sel)
  case Nil
  then show ?case by (simp add: ahead_def List.map_filter_simps)
next
  case (Cons e sel)
  then show ?case
    by (cases "nextElementSibling e")
       (auto simp: ahead_def List.map_filter_simps dest: next_following)
qed

lemma ahead_next_le: "ahead (sel_next sel) \<le> ahead sel"
  unfolding sel_next_def using ahead_map_filter [of sel] by linarith

lemma ahead_next: "sel \<noteq> [] \<Longrightarrow> ahead (sel_next sel) < ahead sel"
proof -
  assume ne: "sel \<noteq> []"
  then have "0 < length sel" by simp
  then show ?thesis unfolding sel_next_def using ahead_map_filter [of sel] by linarith
qed

lemma ahead_next_next: "sel \<noteq> [] \<Longrightarrow> ahead (sel_next (sel_next sel)) < ahead sel"
  using ahead_next [of sel] ahead_next_le [of "sel_next sel"] by linarith

section \<open>JavaScript objects used as dictionaries\<close>

text \<open>
  The catalog's mappings are plain objects filled by \<open>obj[name] = value\<close>. The model keeps
  the own properties in creation order. An assignment to an existing key replaces the
  value in place, and one to a new key creates the property; the key \<open>__proto__\<close> is
  the accessor inherited from \<open>Object.prototype\<close>, so assigning an object to it sets
  the prototype and creates no own property. \<open>Object.keys\<close>, \<open>Object.values\<close> and
  \<open>Object.entries\<close> list the array-index keys (canonical decimal numerals below
  \<open>2^32 - 1\<close>) first, in ascending numeric order, and then the other keys in creation
  order.
\<close>

type_synonym 'v js_object = "(string \<times> 'v) list"

definition index_value :: "string \<Rightarrow> int" where
  "index_value k = foldl (\<lambda>n c. 10 * n + (of_char c - 48)) 0 k"

definition is_array_index :: "string \<Rightarrow> bool" where
  "is_array_index k =
     (k \<noteq> [] \<and> list_all is_digit k \<and> (k = ''0'' \<or> hd k \<noteq> CHR ''0'')
      \<and> index_value k < 4294967295)"

fun own_update :: "string \<Rightarrow> 'v \<Rightarrow> 'v js_object \<Rightarrow> 'v js_object" where
  "own_update k v [] = [(k, v)]"
| "own_update k v ((k', v') # ps) =
     (if k' = k then (k, v) # ps else (k', v') # own_update k v ps)"

definition obj_assign :: "string \<Rightarrow> 'v \<Rightarrow> 'v js_object \<Rightarrow> 'v js_object" where
  "obj_assign k v obj = (if k = ''__proto__'' then obj else own_update k v obj)"

text \<open>\<open>obj_get\<close> reads an own property; inherited properties are not part of the model.\<close>

definition obj_get :: "'v js_object \<Rightarrow> string \<Rightarrow> 'v option" where
  "obj_get obj k = map_of obj k"

definition Object_entries :: "'v js_object \<Rightarrow> (string \<times> 'v) list" where
  "Object_entries obj =
     sort_key (\<lambda>p. index_value (fst p)) (filter (\<lambda>p. is_array_index (fst p)) obj)
       @ filter (\<lambda>p. \<not> is_array_index (fst p)) obj"

definition Object_keys :: "'v js_object \<Rightarrow> string list" where
  "Object_keys obj = map fst (Object_entries obj)"

definition Object_values :: "'v js_object \<Rightarrow> 'v list" where
  "Object_values obj = map snd (Object_entries obj)"

section \<open>The catalog's records\<close>

text \<open>
  \<open>GraphQLField\<close> and \<open>GraphQLArgument\<close> (the parser never sets \<open>deprecated\<close> or
  \<open>defaultValue\<close>), the enum values, \<open>GraphQLOperation\<close> with its example, and
  \<open>GraphQLType\<close> (the parser never sets \<open>interfaces\<close> or \<open>possibleTypes\<close>). An optional
  property is an \<open>option\<close>. The variables and the response of an example are what
  \<open>JSON.parse\<close> returned, or the text itself.
\<close>

record field =
  f_name :: string
  f_type :: string
  f_description :: "string option"
  f_required :: bool

record enum_value =
  ev_name :: string
  ev_description :: "string option"

datatype op_type = Query | Mutation

datatype 'j json_or_text = Parsed 'j | Raw string

record 'j example =
  ex_query :: string
  ex_variables :: "'j json_or_text option"
  ex_response :: "'j json_or_text option"

record 'j operation =
  op_name :: string
  op_type :: op_type
  op_description :: "string option"
  op_arguments :: "field list option"
  op_returnType :: "string option"
  op_example :: "'j example option"

record graphql_type =
  ty_name :: string
  ty_kind :: type_kind
  ty_description :: "string option"
  ty_fields :: "field list option"
  ty_enumValues :: "enum_value list option"

section \<open>The regular expressions of the parser\<close>

text \<open>
  \<open>/^([a-zA-Z_][a-zA-Z0-9_]*)\s*-\s*(.+)$/\<close> on the first cell of a row. The identifier
  and the white space before the dash are the longest possible (no shorter choice can be
  followed by white space or a dash). After the dash the matcher backtracks: white space
  is consumed as long as the rest still matches, and \<open>(.+)$\<close> takes a rest that is not
  empty and has no line terminator. The result is the pair of the two groups.
\<close>

definition is_ident_start :: "char \<Rightarrow> bool" where
  "is_ident_start c = (is_lower c \<or> is_upper c \<or> c = CHR ''_'')"

definition is_word_char :: "char \<Rightarrow> bool" where
  "is_word_char c = (is_lower c \<or> is_upper c \<or> is_digit c \<or> c = CHR ''_'')"

definition dot_plus_end :: "string \<Rightarrow> bool" where
  "dot_plus_end r = (r \<noteq> [] \<and> \<not> list_ex is_line_terminator r)"

fun match_type_info :: "string \<Rightarrow> string option" where
  "match_type_info [] = None"
| "match_type_info (c # cs) =
     (if is_space c then
        (case match_type_info cs of
           Some t \<Rightarrow> Some t
         | None \<Rightarrow> if dot_plus_end (c # cs) then Some (c # cs) else None)
      else if dot_plus_end (c # cs) then Some (c # cs) else None)"

definition match_name_type :: "string \<Rightarrow> (string \<times> string) option" where
  "match_name_type s =
     (case s of
        [] \<Rightarrow> None
      | c # cs \<Rightarrow>
          if \<not> is_ident_start c then None
          else (case dropWhile is_space (dropWhile is_word_char cs) of
                  [] \<Rightarrow> None
                | d # r \<Rightarrow>
                    if d \<noteq> CHR ''-'' then None
                    else (case match_type_info r of
                            None \<Rightarrow> None
                          | Some typeInfo \<Rightarrow> Some (c # takeWhile is_word_char cs, typeInfo))))"

text \<open>
  A literal under the flag \<open>i\<close>: \<open>ci_literal pat s\<close> matches the lower-case literal
  \<open>pat\<close> at the start of \<open>s\<close>, letter by letter with case ignored, and returns the text
  matched and the rest.
\<close>

fun ci_literal :: "string \<Rightarrow> string \<Rightarrow> (string \<times> string) option" where
  "ci_literal [] s = Some ([], s)"
| "ci_literal (p # ps) [] = None"
| "ci_literal (p # ps) (c # cs) =
     (if lower_char c = p
      then (case ci_literal ps cs of Some (m, r) \<Rightarrow> Some (c # m, r) | None \<Rightarrow> None)
      else None)"

text \<open>
  \<open>/returns?\s+an?\s+([A-Za-z0-9_]+)/i\<close>, searched from the left; the result is the
  group. An optional letter is taken when it is there (what follows it, white space,
  cannot match the letter itself), and each run of white space and the group are the
  longest possible.
\<close>

definition skip_optional :: "char \<Rightarrow> string \<Rightarrow> string" where
  "skip_optional c s = (case s of [] \<Rightarrow> [] | d # r \<Rightarrow> if lower_char d = c then r else s)"

definition spaces_then :: "string \<Rightarrow> string option" where
  "spaces_then s =
     (case s of [] \<Rightarrow> None | d # r \<Rightarrow> if is_space d then Some (dropWhile is_space r) else None)"

definition match_returns_at :: "string \<Rightarrow> string option" where
  "match_returns_at s =
     (case ci_literal ''return'' s of
        None \<Rightarrow> None
      | Some (m, r) \<Rightarrow>
          (case spaces_then (skip_optional CHR ''s'' r) of
             None \<Rightarrow> None
           | Some r1 \<Rightarrow>
               (case ci_literal ''a'' r1 of
                  None \<Rightarrow> None
                | Some (m1, r2) \<Rightarrow>
                    (case spaces_then (skip_optional CHR ''n'' r2) of
                       None \<Rightarrow> None
                     | Some w \<Rightarrow> if takeWhile is_word_char w = [] then None
                                 else Some (takeWhile is_word_char w)))))"

fun match_returns :: "string \<Rightarrow> string option" where
  "match_returns [] = None"
| "match_returns (c # cs) =
     (case match_returns_at (c # cs) of Some t \<Rightarrow> Some t | None \<Rightarrow> match_returns cs)"

text \<open>
  \<open>/US data center.*?(https:\/\/api\.superops\.ai\/msp)/i\<close> and its EU twin, with the
  phrase and the address as lower-case literals: the leftmost phrase after which the
  address is found on the same line, and the first such address, as it is written in the
  text.
\<close>

fun lazy_dots_then :: "string \<Rightarrow> string \<Rightarrow> string option" where
  "lazy_dots_then url [] = (case ci_literal url [] of Some (m, r) \<Rightarrow> Some m | None \<Rightarrow> None)"
| "lazy_dots_then url (c # cs) =
     (case ci_literal url (c # cs) of
        Some (m, r) \<Rightarrow> Some m
      | None \<Rightarrow> if is_line_terminator c then None else lazy_dots_then url cs)"

definition match_endpoint_at :: "string \<Rightarrow> string \<Rightarrow> string \<Rightarrow> string option" where
  "match_endpoint_at phrase url s =
     (case ci_literal phrase s of Some (m, r) \<Rightarrow> lazy_dots_then url r | None \<Rightarrow> None)"

fun match_endpoint :: "string \<Rightarrow> string \<Rightarrow> string \<Rightarrow> string option" where
  "match_endpoint phrase url [] = match_endpoint_at phrase url []"
| "match_endpoint phrase url (c # cs) =
     (case match_endpoint_at phrase url (c # cs) of
        Some u \<Rightarrow> Some u
      | None \<Rightarrow> match_endpoint phrase url cs)"

section \<open>The table parsers\<close>

text \<open>
  The rows of a table are found by \<open>find('tbody tr')\<close> and the cells of a row by
  \<open>find('td')\<close>. The callback of \<open>each\<close> pushes at most one record for a row; the result
  of a table is what its rows pushed, in the order of the rows.
\<close>

definition argument_of_row :: "element \<Rightarrow> field list" where
  "argument_of_row row =
     (case sel_find ''td'' [row] of
        cell0 # cell1 # others \<Rightarrow>
          (let nameTypeCell = trim (elem_text cell0);
               descriptionCell = trim (elem_text cell1)
           in case match_name_type nameTypeCell of
                Some (name, typeInfo) \<Rightarrow>
                  [\<lparr>f_name = name, f_type = trim typeInfo,
                    f_description = Some descriptionCell,
                    f_required = str_includes typeInfo ''!''\<rparr>]
              | None \<Rightarrow> [])
      | _ \<Rightarrow> [])"

definition parseArgumentsTable :: "cheerio \<Rightarrow> field list" where
  "parseArgumentsTable table = concat (map argument_of_row (find_tbody_tr table))"

definition field_of_row :: "element \<Rightarrow> field list" where
  "field_of_row row =
     (case sel_find ''td'' [row] of
        cell0 # cell1 # others \<Rightarrow>
          (let nameTypeCell = trim (elem_text cell0);
               descriptionCell = trim (elem_text cell1)
           in case match_name_type nameTypeCell of
                Some (name, typeInfo) \<Rightarrow>
                  [\<lparr>f_name = name, f_type = trim typeInfo,
                    f_description = Some descriptionCell,
                    f_required = str_includes typeInfo ''!''\<rparr>]
              | None \<Rightarrow> [])
      | _ \<Rightarrow> [])"

definition parseFieldsTable :: "cheerio \<Rightarrow> field list" where
  "parseFieldsTable table = concat (map field_of_row (find_tbody_tr table))"

definition enum_value_of_row :: "element \<Rightarrow> enum_value list" where
  "enum_value_of_row row =
     (case sel_find ''td'' [row] of
        [] \<Rightarrow> []
      | cell0 # rest \<Rightarrow>
          (let nameCell = trim (elem_text cell0);
               descriptionCell =
                 (case rest of [] \<Rightarrow> None | cell1 # others \<Rightarrow> Some (trim (elem_text cell1)))
           in if nameCell \<noteq> [] then
                [\<lparr>ev_name = nameCell, ev_description = descriptionCell\<rparr>]
              else []))"

definition parseEnumValuesTable :: "cheerio \<Rightarrow> enum_value list" where
  "parseEnumValuesTable table = concat (map enum_value_of_row (find_tbody_tr table))"

section \<open>The example extractor\<close>

text \<open>
  \<open>JSON.parse\<close> is the parameter \<open>J\<close>: it returns a value or throws a \<open>SyntaxError\<close>.
  The \<open>try\<close>/\<open>catch\<close> around it keeps the text when it throws.
\<close>

datatype js_error = SyntaxError

definition parse_or_text :: "(string \<Rightarrow> js_error + 'j) \<Rightarrow> string \<Rightarrow> 'j json_or_text" where
  "parse_or_text J t = (case J t of Inr v \<Rightarrow> Parsed v | Inl e \<Rightarrow> Raw t)"

text \<open>The branches of the loop body, in the order of the \<open>if\<close>/\<open>else if\<close> chain.\<close>

datatype label = QueryLabel | VariablesLabel | ResponseLabel

definition classify :: "cheerio \<Rightarrow> label option" where
  "classify cur =
     (let text = toLowerCase (sel_text cur) in
      if str_includes text ''query'' \<and> sel_is [''pre'', ''code''] (sel_next cur)
        then Some QueryLabel
      else if str_includes text ''variables'' \<and> sel_is [''pre'', ''code''] (sel_next cur)
        then Some VariablesLabel
      else if str_includes text ''response'' \<and> sel_is [''pre'', ''code''] (sel_next cur)
        then Some ResponseLabel
      else None)"

definition example_step ::
  "(string \<Rightarrow> js_error + 'j) \<Rightarrow> cheerio \<Rightarrow> 'j example \<Rightarrow> 'j example" where
  "example_step J cur ex =
     (case classify cur of
        Some QueryLabel \<Rightarrow> ex\<lparr>ex_query := trim (sel_text (sel_next cur))\<rparr>
      | Some VariablesLabel \<Rightarrow>
          ex\<lparr>ex_variables := Some (parse_or_text J (trim (sel_text (sel_next cur))))\<rparr>
      | Some ResponseLabel \<Rightarrow>
          ex\<lparr>ex_response := Some (parse_or_text J (trim (sel_text (sel_next cur))))\<rparr>
      | None \<Rightarrow> ex)"

function parseExample_loop ::
  "(string \<Rightarrow> js_error + 'j) \<Rightarrow> cheerio \<Rightarrow> 'j example \<Rightarrow> 'j example" where
  "parseExample_loop J cur ex =
     (if cur \<noteq> [] \<and> \<not> sel_is [''h3'', ''h2''] cur
      then parseExample_loop J (sel_next cur) (example_step J cur ex)
      else ex)"
  by pat_completeness auto
termination
  by (relation "measure (\<lambda>(J, cur, ex). ahead cur)") (auto simp: ahead_next)

declare parseExample_loop.simps [simp del]

definition parseExample :: "(string \<Rightarrow> js_error + 'j) \<Rightarrow> cheerio \<Rightarrow> 'j example" where
  "parseExample J element =
     parseExample_loop J (sel_next element)
       \<lparr>ex_query = [], ex_variables = None, ex_response = None\<rparr>"

section \<open>The operation extractor\<close>

text \<open>
  \<open>parseOperation\<close> keeps one cursor, \<open>currentElement\<close>, through the description and
  its three loops; each loop returns the record and the cursor it leaves.
\<close>

definition parse_description :: "cheerio \<Rightarrow> string option \<times> cheerio" where
  "parse_description cur =
     (if sel_is [''p''] cur \<and> startsWith (toLowerCase (sel_text cur)) ''description'' then
        (if sel_is [''p''] (sel_next cur)
         then (Some (trim (sel_text (sel_next cur))), sel_next (sel_next cur))
         else (None, sel_next cur))
      else (None, cur))"

function returnType_loop :: "'j operation \<Rightarrow> cheerio \<Rightarrow> 'j operation \<times> cheerio" where
  "returnType_loop operation cur =
     (if cur \<noteq> [] \<and> \<not> sel_is [''h3'', ''h2''] cur then
        (if str_includes (toLowerCase (sel_text cur)) ''response''
            \<or> str_includes (toLowerCase (sel_text cur)) ''returns''
         then ((case match_returns (sel_text cur) of
                  Some t \<Rightarrow> operation\<lparr>op_returnType := Some t\<rparr>
                | None \<Rightarrow> operation),
               sel_next cur)
         else returnType_loop operation (sel_next cur))
      else (operation, cur))"
  by pat_completeness auto
termination
  by (relation "measure (\<lambda>(operation, cur). ahead cur)") (auto simp: ahead_next)

declare returnType_loop.simps [simp del]

function arguments_loop :: "'j operation \<Rightarrow> cheerio \<Rightarrow> 'j operation \<times> cheerio" where
  "arguments_loop operation cur =
     (if cur \<noteq> [] \<and> \<not> sel_is [''h3'', ''h2''] cur then
        (if sel_is [''table''] cur
         then (operation\<lparr>op_arguments := Some (parseArgumentsTable cur)\<rparr>, sel_next cur)
         else if str_includes (toLowerCase (sel_text cur)) ''arguments'' then
           (if sel_is [''table''] (sel_next cur)
            then (operation\<lparr>op_arguments := Some (parseArgumentsTable (sel_next cur))\<rparr>,
                  sel_next (sel_next cur))
            else arguments_loop operation (sel_next (sel_next cur)))
         else arguments_loop operation (sel_next cur))
      else (operation, cur))"
  by pat_completeness auto
termination
  by (relation "measure (\<lambda>(operation, cur). ahead cur)")
     (auto simp: ahead_next ahead_next_next)

declare arguments_loop.simps [simp del]

function example_loop ::
  "(string \<Rightarrow> js_error + 'j) \<Rightarrow> 'j operation \<Rightarrow> cheerio \<Rightarrow> 'j operation" where
  "example_loop J operation cur =
     (if cur \<noteq> [] \<and> \<not> sel_is [''h3'', ''h2''] cur then
        (if str_includes (toLowerCase (sel_text cur)) ''example''
         then operation\<lparr>op_example := Some (parseExample J cur)\<rparr>
         else example_loop J operation (sel_next cur))
      else operation)"
  by pat_completeness auto
termination
  by (relation "measure (\<lambda>(J, operation, cur). ahead cur)") (auto simp: ahead_next)

declare example_loop.simps [simp del]

definition parseOperation ::
  "(string \<Rightarrow> js_error + 'j) \<Rightarrow> cheerio \<Rightarrow> op_type \<Rightarrow> 'j operation option" where
  "parseOperation J element type =
     (let name = trim (sel_text element) in
      if name = [] then None
      else
        (let (description, cur1) = parse_description (sel_next element);
             operation = \<lparr>op_name = name, op_type = type, op_description = description,
                          op_arguments = None, op_returnType = None, op_example = None\<rparr>;
             (operation, cur2) = returnType_loop operation cur1;
             (operation, cur3) = arguments_loop operation cur2
         in Some (example_loop J operation cur3)))"

section \<open>The type extractor\<close>

definition set_table :: "graphql_type \<Rightarrow> cheerio \<Rightarrow> graphql_type" where
  "set_table type table =
     (if ty_kind type = ENUM
      then type\<lparr>ty_enumValues := Some (parseEnumValuesTable table)\<rparr>
      else type\<lparr>ty_fields := Some (parseFieldsTable table)\<rparr>)"

function fields_loop :: "graphql_type \<Rightarrow> cheerio \<Rightarrow> graphql_type" where
  "fields_loop type cur =
     (if cur \<noteq> [] \<and> \<not> sel_is [''h3'', ''h2''] cur then
        (if sel_is [''table''] cur then set_table type cur
         else if str_includes (toLowerCase (sel_text cur)) ''fields''
                 \<or> str_includes (toLowerCase (sel_text cur)) ''values'' then
           (if sel_is [''table''] (sel_next cur) then set_table type (sel_next cur)
            else fields_loop type (sel_next (sel_next cur)))
         else fields_loop type (sel_next cur))
      else type)"
  by pat_completeness auto
termination
  by (relation "measure (\<lambda>(type, cur). ahead cur)") (auto simp: ahead_next ahead_next_next)

declare fields_loop.simps [simp del]

definition parseType :: "cheerio \<Rightarrow> graphql_type option" where
  "parseType element =
     (let name = trim (sel_text element) in
      if name = [] then None
      else
        (let (description, cur1) = parse_description (sel_next element);
             type = \<lparr>ty_name = name, ty_kind = inferTypeKind name,
                     ty_description = description, ty_fields = None, ty_enumValues = None\<rparr>
         in Some (fields_loop type cur1)))"

section \<open>The section scanner\<close>

text \<open>
  \<open>$('h2').filter(...)\<close>: the \<open>h2\<close> elements of the document whose trimmed text is the
  title when case is ignored.
\<close>

definition find_section :: "string \<Rightarrow> node list \<Rightarrow> cheerio" where
  "find_section title doc =
     filter (\<lambda>el. toLowerCase (trim (elem_text el)) = title) (select_tags [''h2''] doc)"

definition store_operation ::
  "'j operation option \<Rightarrow> 'j operation js_object \<Rightarrow> 'j operation js_object" where
  "store_operation r obj =
     (case r of Some operation \<Rightarrow> obj_assign (op_name operation) operation obj | None \<Rightarrow> obj)"

function operations_loop ::
  "(string \<Rightarrow> js_error + 'j) \<Rightarrow> op_type \<Rightarrow> cheerio \<Rightarrow> 'j operation js_object
     \<Rightarrow> 'j operation js_object" where
  "operations_loop J type cur obj =
     (if cur \<noteq> [] \<and> \<not> sel_is [''h2''] cur then
        operations_loop J type (sel_next cur)
          (if sel_is [''h3''] cur then store_operation (parseOperation J cur type) obj else obj)
      else obj)"
  by pat_completeness auto
termination
  by (relation "measure (\<lambda>(J, type, cur, obj). ahead cur)") (auto simp: ahead_next)

declare operations_loop.simps [simp del]

definition parseQueries :: "(string \<Rightarrow> js_error + 'j) \<Rightarrow> node list \<Rightarrow> 'j operation js_object" where
  "parseQueries J doc =
     (let queriesSection = find_section ''queries'' doc in
      if queriesSection \<noteq> [] then operations_loop J Query (sel_next queriesSection) []
      else [])"

definition parseMutations :: "(string \<Rightarrow> js_error + 'j) \<Rightarrow> node list \<Rightarrow> 'j operation js_object" where
  "parseMutations J doc =
     (let mutationsSection = find_section ''mutations'' doc in
      if mutationsSection \<noteq> [] then operations_loop J Mutation (sel_next mutationsSection) []
      else [])"

definition store_type :: "graphql_type option \<Rightarrow> graphql_type js_object \<Rightarrow> graphql_type js_object" where
  "store_type r obj =
     (case r of Some type \<Rightarrow> obj_assign (ty_name type) type obj | None \<Rightarrow> obj)"

text \<open>The loop of \<open>parseTypes\<close> runs while the selection is not empty.\<close>

function types_loop :: "cheerio \<Rightarrow> graphql_type js_object \<Rightarrow> graphql_type js_object" where
  "types_loop cur obj =
     (if cur \<noteq> [] then
        types_loop (sel_next cur)
          (if sel_is [''h3''] cur then store_type (parseType cur) obj else obj)
      else obj)"
  by pat_completeness auto
termination
  by (relation "measure (\<lambda>(cur, obj). ahead cur)") (auto simp: ahead_next)

declare types_loop.simps [simp del]

definition parseTypes :: "node list \<Rightarrow> graphql_type js_object" where
  "parseTypes doc =
     (let typesSection = find_section ''types'' doc in
      if typesSection \<noteq> [] then types_loop (sel_next typesSection) []
      else [])"

section \<open>Search\<close>

text \<open>
  A JavaScript string is truthy when it is not empty: \<open>d && d.toLowerCase().includes(q)\<close>
  on an optional string.
\<close>

definition opt_includes :: "string option \<Rightarrow> string \<Rightarrow> bool" where
  "opt_includes d searchLower =
     (case d of None \<Rightarrow> False | Some t \<Rightarrow> t \<noteq> [] \<and> str_includes (toLowerCase t) searchLower)"

definition field_found :: "string \<Rightarrow> field \<Rightarrow> bool" where
  "field_found searchLower arg =
     (str_includes (toLowerCase (f_name arg)) searchLower
      \<or> str_includes (toLowerCase (f_type arg)) searchLower
      \<or> opt_includes (f_description arg) searchLower)"

definition enum_value_found :: "string \<Rightarrow> enum_value \<Rightarrow> bool" where
  "enum_value_found searchLower enumValue =
     (str_includes (toLowerCase (ev_name enumValue)) searchLower
      \<or> opt_includes (ev_description enumValue) searchLower)"

fun searchOperations_loop ::
  "string \<Rightarrow> 'j operation list \<Rightarrow> 'j operation list \<Rightarrow> 'j operation list" where
  "searchOperations_loop searchLower [] results = results"
| "searchOperations_loop searchLower (operation # rest) results =
     (if str_includes (toLowerCase (op_name operation)) searchLower
        then searchOperations_loop searchLower rest (results @ [operation])
      else if opt_includes (op_description operation) searchLower
        then searchOperations_loop searchLower rest (results @ [operation])
      else if (case op_arguments operation of
                 None \<Rightarrow> False
               | Some args \<Rightarrow> list_ex (field_found searchLower) args)
        then searchOperations_loop searchLower rest (results @ [operation])
      else if opt_includes (op_returnType operation) searchLower
        then searchOperations_loop searchLower rest (results @ [operation])
      else searchOperations_loop searchLower rest results)"

definition searchOperations :: "string \<Rightarrow> 'j operation js_object \<Rightarrow> 'j operation list" where
  "searchOperations query operations =
     searchOperations_loop (toLowerCase query) (Object_values operations) []"

fun searchTypes_loop ::
  "string \<Rightarrow> graphql_type list \<Rightarrow> graphql_type list \<Rightarrow> graphql_type list" where
  "searchTypes_loop searchLower [] results = results"
| "searchTypes_loop searchLower (type # rest) results =
     (if str_includes (toLowerCase (ty_name type)) searchLower
        then searchTypes_loop searchLower rest (results @ [type])
      else if opt_includes (ty_description type) searchLower
        then searchTypes_loop searchLower rest (results @ [type])
      else if (case ty_fields type of
                 None \<Rightarrow> False
               | Some fs \<Rightarrow> list_ex (field_found searchLower) fs)
        then searchTypes_loop searchLower rest (results @ [type])
      else if (case ty_enumValues type of
                 None \<Rightarrow> False
               | Some enumValues \<Rightarrow> list_ex (enum_value_found searchLower) enumValues)
        then searchTypes_loop searchLower rest (results @ [type])
      else searchTypes_loop searchLower rest results)"

definition searchTypes :: "string \<Rightarrow> graphql_type js_object \<Rightarrow> graphql_type list" where
  "searchTypes query types = searchTypes_loop (toLowerCase query) (Object_values types) []"

section \<open>Endpoints and the catalog\<close>

text \<open>
  \<open>parseEndpoints\<close> as the parser beside the server has it: the object starts with the
  two default addresses, and every \<open>p\<close>, \<open>div\<close> and \<open>code\<close> element whose text matches a
  pattern assigns the captured address. (The copy in \<open>src/parser.ts\<close> differs in this
  function only: it starts from the empty object.)
\<close>

definition us_default :: string where
  "us_default = ''https://api.superops.ai/msp''"

definition eu_default :: string where
  "eu_default = ''https://euapi.superops.ai/msp''"

definition endpoint_step :: "string js_object \<Rightarrow> element \<Rightarrow> string js_object" where
  "endpoint_step endpoints el =
     (let text = elem_text el;
          endpoints1 =
            (case match_endpoint ''us data center'' ''https://api.superops.ai/msp'' text of
               Some u \<Rightarrow> obj_assign ''us'' u endpoints
             | None \<Rightarrow> endpoints)
      in case match_endpoint ''eu data center'' ''https://euapi.superops.ai/msp'' text of
           Some u \<Rightarrow> obj_assign ''eu'' u endpoints1
         | None \<Rightarrow> endpoints1)"

definition parseEndpoints :: "node list \<Rightarrow> string js_object" where
  "parseEndpoints doc =
     foldl endpoint_step [(''us'', us_default), (''eu'', eu_default)]
       (select_tags [''p'', ''div'', ''code''] doc)"

record summary =
  totalQueries :: nat
  totalMutations :: nat
  totalTypes :: nat

record 'j catalog =
  endpoints :: "string js_object"
  queries :: "'j operation js_object"
  mutations :: "'j operation js_object"
  types :: "graphql_type js_object"
  summary :: summary

definition parseAll :: "(string \<Rightarrow> js_error + 'j) \<Rightarrow> node list \<Rightarrow> 'j catalog" where
  "parseAll J doc =
     (let endpoints = parseEndpoints doc;
          queries = parseQueries J doc;
          mutations = parseMutations J doc;
          types = parseTypes doc
      in \<lparr>endpoints = endpoints, queries = queries, mutations = mutations, types = types,
          summary = \<lparr>totalQueries = length (Object_keys queries),
                      totalMutations = length (Object_keys mutations),
                      totalTypes = length (Object_keys types)\<rparr>\<rparr>)"

text \<open>
  The constructor hands the text to \<open>cheerio.load\<close>, the parameter \<open>load\<close>, which builds
  the tree or throws; the constructor catches nothing. Constructing the parser and
  calling \<open>parseAll\<close>:
\<close>

definition parse_html ::
  "(string \<Rightarrow> 'e + node list) \<Rightarrow> (string \<Rightarrow> js_error + 'j) \<Rightarrow> string \<Rightarrow> 'e + 'j catalog" where
  "parse_html load J html =
     (case load html of Inl e \<Rightarrow> Inl e | Inr doc \<Rightarrow> Inr (parseAll J doc))"

section \<open>Loading the module\<close>

text \<open>
  The parser is a class in an ES module, so all of its code is strict-mode code. There
  a parameter or a \<open>const\<close> or \<open>let\<close> declaration that binds the name \<open>eval\<close> or
  \<open>arguments\<close> is an early \<open>SyntaxError\<close>: the module is rejected when it is loaded, and
  none of its code runs. \<open>bound_names\<close> lists, method by method, the names that the
  methods of \<open>SuperopsDocumentationParser\<close> bind.
\<close>

definition bound_names :: "(string \<times> string list) list" where
  "bound_names =
     [(''constructor'', [''html'']),
      (''parseAll'', [''endpoints'', ''queries'', ''mutations'', ''types'']),
      (''parseEndpoints'', [''endpoints'', ''_'', ''element'', ''text'', ''usMatch'', ''euMatch'']),
      (''parseQueries'',
         [''queries'', ''queriesSection'', ''_'', ''el'', ''currentElement'', ''operation'']),
      (''parseMutations'',
         [''mutations'', ''mutationsSection'', ''_'', ''el'', ''currentElement'', ''operation'']),
      (''parseOperation'',
         [''element'', ''type'', ''name'', ''operation'', ''currentElement'', ''returnText'',
          ''returnMatch'']),
      (''parseArgumentsTable'',
         [''table'', ''arguments'', ''_'', ''row'', ''cells'', ''nameTypeCell'',
          ''descriptionCell'', ''match'', ''name'', ''typeInfo'']),
      (''parseExample'',
         [''element'', ''example'', ''currentElement'', ''text'', ''variablesText'',
          ''responseText'']),
      (''parseTypes'', [''types'', ''typesSection'', ''_'', ''el'', ''currentElement'', ''type'']),
      (''parseType'', [''element'', ''name'', ''type'', ''currentElement'']),
      (''parseFieldsTable'',
         [''table'', ''fields'', ''_'', ''row'', ''cells'', ''nameTypeCell'', ''descriptionCell'',
          ''match'', ''name'', ''typeInfo'']),
      (''parseEnumValuesTable'',
         [''table'', ''enumValues'', ''_'', ''row'', ''cells'', ''nameCell'', ''descriptionCell'']),
      (''inferTypeKind'', [''typeName'']),
      (''searchOperations'',
         [''query'', ''operations'', ''searchLower'', ''results'', ''operation'', ''found'',
          ''arg'']),
      (''searchTypes'',
         [''query'', ''types'', ''searchLower'', ''results'', ''type'', ''found'', ''field'',
          ''enumValue''])]"

definition strict_mode_error :: "string list \<Rightarrow> bool" where
  "strict_mode_error names = list_ex (\<lambda>x. x \<in> set [''eval'', ''arguments'']) names"

definition load_module :: "js_error + unit" where
  "load_module =
     (if list_ex (\<lambda>m. strict_mode_error (snd m)) bound_names then Inl SyntaxError
      else Inr ())"

text \<open>
  Importing the module, constructing the parser on a text and calling \<open>parseAll\<close>: the
  error of the import, or else what \<open>parse_html\<close> gives.
\<close>

definition import_and_parse ::
  "(string \<Rightarrow> 'e + node list) \<Rightarrow> (string \<Rightarrow> js_error + 'j) \<Rightarrow> string
     \<Rightarrow> js_error + ('e + 'j catalog)" where
  "import_and_parse load J html =
     (case load_module of Inl e \<Rightarrow> Inl e | Inr u \<Rightarrow> Inr (parse_html load J html))"

section \<open>Documents used as examples\<close>

text \<open>
  \<open>cheerio.load\<close> wraps the content of a page in \<open>html\<close>, \<open>head\<close> and \<open>body\<close> elements;
  \<open>page\<close> builds that tree from the nodes of the body.
\<close>

definition page :: "node list \<Rightarrow> node list" where
  "page body = [Element ''html'' [Element ''head'' [], Element ''body'' body]]"

text \<open>
  The scenario of the specification: the heading "Queries", the entry heading
  "getTicket", the paragraphs "Description" and "Fetch a single ticket", and a table
  with one body row.
\<close>

definition scenario_doc :: "node list" where
  "scenario_doc = page
     [Element ''h2'' [Text ''Queries''],
      Element ''h3'' [Text ''getTicket''],
      Element ''p'' [Text ''Description''],
      Element ''p'' [Text ''Fetch a single ticket''],
      Element ''table'' [Element ''tbody'' [Element ''tr''
         [Element ''td'' [Text ''ticketId - ID!''],
          Element ''td'' [Text ''Unique identifier'']]]]]"

text \<open>
  A section with one entry, followed by another top-level heading that has an entry of
  its own.
\<close>

definition section_doc :: "string \<Rightarrow> node list" where
  "section_doc title = page
     [Element ''h2'' [Text title],
      Element ''h3'' [Text ''Alpha''],
      Element ''h2'' [Text ''Changelog''],
      Element ''h3'' [Text ''Beta'']]"

section \<open>Search, as the specification words it\<close>

text \<open>
  \<open>spec_ci_substring q s\<close>: some substring of \<open>s\<close> equals the query \<open>q\<close> when case is
  ignored. An operation matches when that holds of its name, of its description, of the
  name, type or description of one of its arguments, or of its return type; a type
  matches when it holds of its name, of its description, of the name, type or
  description of one of its fields, or of the name or description of one of its enum
  values.
\<close>

definition spec_ci_substring :: "string \<Rightarrow> string \<Rightarrow> bool" where
  "spec_ci_substring q s = (\<exists>a m b. s = a @ m @ b \<and> toLowerCase m = toLowerCase q)"

definition spec_ci_substring_opt :: "string \<Rightarrow> string option \<Rightarrow> bool" where
  "spec_ci_substring_opt q d = (\<exists>t. d = Some t \<and> spec_ci_substring q t)"

definition spec_field_matches :: "string \<Rightarrow> field \<Rightarrow> bool" where
  "spec_field_matches q f =
     (spec_ci_substring q (f_name f) \<or> spec_ci_substring q (f_type f)
      \<or> spec_ci_substring_opt q (f_description f))"

definition spec_operation_matches :: "string \<Rightarrow> 'j operation \<Rightarrow> bool" where
  "spec_operation_matches q operation =
     (spec_ci_substring q (op_name operation)
      \<or> spec_ci_substring_opt q (op_description operation)
      \<or> (\<exists>args a. op_arguments operation = Some args \<and> a \<in> set args \<and> spec_field_matches q a)
      \<or> spec_ci_substring_opt q (op_returnType operation))"

definition spec_type_matches :: "string \<Rightarrow> graphql_type \<Rightarrow> bool" where
  "spec_type_matches q type =
     (spec_ci_substring q (ty_name type)
      \<or> spec_ci_substring_opt q (ty_description type)
      \<or> (\<exists>fs f. ty_fields type = Some fs \<and> f \<in> set fs \<and> spec_field_matches q f)
      \<or> (\<exists>vs v. ty_enumValues type = Some vs \<and> v \<in> set vs
            \<and> (spec_ci_substring q (ev_name v) \<or> spec_ci_substring_opt q (ev_description v))))"

text \<open>
  The conditions under which the two search loops push the entry: the disjunction of
  the tests of the \<open>if\<close> chain.
\<close>

definition operation_found :: "string \<Rightarrow> 'j operation \<Rightarrow> bool" where
  "operation_found searchLower operation =
     (str_includes (toLowerCase (op_name operation)) searchLower
      \<or> opt_includes (op_description operation) searchLower
      \<or> (case op_arguments operation of
            None \<Rightarrow> False
          | Some args \<Rightarrow> list_ex (field_found searchLower) args)
      \<or> opt_includes (op_returnType operation) searchLower)"

definition type_found :: "string \<Rightarrow> graphql_type \<Rightarrow> bool" where
  "type_found searchLower type =
     (str_includes (toLowerCase (ty_name type)) searchLower
      \<or> opt_includes (ty_description type) searchLower
      \<or> (case ty_fields type of
            None \<Rightarrow> False
          | Some fs \<Rightarrow> list_ex (field_found searchLower) fs)
      \<or> (case ty_enumValues type of
            None \<Rightarrow> False
          | Some enumValues \<Rightarrow> list_ex (enum_value_found searchLower) enumValues))"

text \<open>A \<open>JSON.parse\<close> for documents without code blocks, and small example inputs.\<close>

definition no_json :: "string \<Rightarrow> js_error + unit" where
  "no_json t = Inl SyntaxError"

definition ticket_list_op :: "unit operation" where
  "ticket_list_op =
     \<lparr>op_name = ''getTicketList'', op_type = Query, op_description = Some ''Fetch tickets'',
      op_arguments = None, op_returnType = None, op_example = None\<rparr>"

definition numbered_queries_doc :: "node list" where
  "numbered_queries_doc = page
     [Element ''h2'' [Text ''Queries''],
      Element ''h3'' [Text ''b''],
      Element ''h3'' [Text ''1'']]"

definition plain_doc :: "node list" where
  "plain_doc = page
     [Element ''h1'' [Text ''API''],
      Element ''h2'' [Text ''Introduction''],
      Element ''p'' [Text ''Nothing to parse here.'']]"

text \<open>A document that writes the US address in capitals.\<close>

definition capitals_doc :: "node list" where
  "capitals_doc = page
     [Element ''p'' [Text ''US data center: HTTPS://API.SUPEROPS.AI/MSP'']]"

text \<open>
  The invariant of the loop of \<open>parseEndpoints\<close>: the object has the keys "us" and "eu",
  in this order, and each address equals its default when case is ignored.
\<close>

definition endpoints_ok :: "string js_object \<Rightarrow> bool" where
  "endpoints_ok obj =
     (\<exists>u e. obj = [(''us'', u), (''eu'', e)]
        \<and> toLowerCase u = ''https://api.superops.ai/msp''
        \<and> toLowerCase e = ''https://euapi.superops.ai/msp'')"

section \<open>The entries of a section and the mapping they fill\<close>

text \<open>
  The records that a section loop builds, in the order in which it builds them: the
  loops of \<open>parseQueries\<close> and \<open>parseMutations\<close> and the loop of \<open>parseTypes\<close>, with the
  record listed in place of the assignment.
\<close>

function section_operations ::
  "(string \<Rightarrow> js_error + 'j) \<Rightarrow> op_type \<Rightarrow> cheerio \<Rightarrow> 'j operation list" where
  "section_operations J type cur =
     (if cur \<noteq> [] \<and> \<not> sel_is [''h2''] cur then
        (if sel_is [''h3''] cur
         then (case parseOperation J cur type of Some operation \<Rightarrow> [operation] | None \<Rightarrow> [])
         else [])
        @ section_operations J type (sel_next cur)
      else [])"
  by pat_completeness auto
termination
  by (relation "measure (\<lambda>(J, type, cur). ahead cur)") (auto simp: ahead_next)

declare section_operations.simps [simp del]

function section_types :: "cheerio \<Rightarrow> graphql_type list" where
  "section_types cur =
     (if cur \<noteq> [] then
        (if sel_is [''h3''] cur
         then (case parseType cur of Some type \<Rightarrow> [type] | None \<Rightarrow> [])
         else [])
        @ section_types (sel_next cur)
      else [])"
  by pat_completeness auto
termination
  by (relation "measure ahead") (auto simp: ahead_next)

declare section_types.simps [simp del]

definition query_entries :: "(string \<Rightarrow> js_error + 'j) \<Rightarrow> node list \<Rightarrow> 'j operation list" where
  "query_entries J doc = section_operations J Query (sel_next (find_section ''queries'' doc))"

definition mutation_entries :: "(string \<Rightarrow> js_error + 'j) \<Rightarrow> node list \<Rightarrow> 'j operation list" where
  "mutation_entries J doc =
     section_operations J Mutation (sel_next (find_section ''mutations'' doc))"

definition type_entries :: "node list \<Rightarrow> graphql_type list" where
  "type_entries doc = section_types (sel_next (find_section ''types'' doc))"

text \<open>Assigning a list of records to an object, each under its name.\<close>

definition store_all :: "('a \<Rightarrow> string) \<Rightarrow> 'a list \<Rightarrow> 'a js_object \<Rightarrow> 'a js_object" where
  "store_all nm xs obj = foldl (\<lambda>acc x. obj_assign (nm x) x acc) obj xs"

text \<open>
  What holds of the object \<open>obj\<close> filled from the records \<open>xs\<close> with names \<open>nm\<close>: the
  value under a name is the last record of that name; the keys are distinct;
  \<open>Object.keys\<close> lists the array-index names by ascending number and then the other
  names in the order of their first occurrence.
\<close>

definition last_write_wins :: "('a \<Rightarrow> string) \<Rightarrow> 'a list \<Rightarrow> 'a js_object \<Rightarrow> bool" where
  "last_write_wins nm xs obj =
     ((\<forall>k. obj_get obj k = List.find (\<lambda>x. nm x = k) (rev xs))
      \<and> distinct (Object_keys obj)
      \<and> Object_keys obj =
          sort_key index_value (filter is_array_index (first_seen (map nm xs)))
          @ filter (\<lambda>k. \<not> is_array_index k) (first_seen (map nm xs)))"

text \<open>Two entries of the same name, and two entries of which the second is a numeral.\<close>

definition duplicate_doc :: "node list" where
  "duplicate_doc = page
     [Element ''h2'' [Text ''Queries''],
      Element ''h3'' [Text ''getTicket''],
      Element ''p'' [Text ''Description''],
      Element ''p'' [Text ''first''],
      Element ''h3'' [Text ''listTickets''],
      Element ''h3'' [Text ('' getTicket'' @ [CHR 0xA0])],
      Element ''p'' [Text ''Description''],
      Element ''p'' [Text ''second'']]"

definition numbered_types_doc :: "node list" where
  "numbered_types_doc = page
     [Element ''h2'' [Text ''Types''],
      Element ''h3'' [Text ''b''],
      Element ''h3'' [Text ''1'']]"

section \<open>The pattern of a table row, as the specification words it\<close>

text \<open>
  An identifier is a letter or underscore followed by letters, digits and underscores.
  A cell matches the pattern when it is an identifier, optional white space, a dash,
  optional white space, and a type signature that is not empty and stays on one line.
\<close>

definition spec_identifier :: "string \<Rightarrow> bool" where
  "spec_identifier n = (n \<noteq> [] \<and> is_ident_start (hd n) \<and> list_all is_word_char (tl n))"

definition spec_name_type_pattern :: "string \<Rightarrow> bool" where
  "spec_name_type_pattern s =
     (\<exists>name w1 w2 ty. s = name @ w1 @ ''-'' @ w2 @ ty \<and> spec_identifier name
        \<and> list_all is_space w1 \<and> list_all is_space w2 \<and> dot_plus_end ty)"

text \<open>
  A table whose rows match, lack the dash, have a single cell, or use the no-break
  space U+00A0.
\<close>

definition mixed_table_doc :: "node list" where
  "mixed_table_doc = page
     [Element ''table''
        [Element ''thead'' [Element ''tr'' [Element ''th'' [Text ''Field'']]],
         Element ''tbody''
           [Element ''tr'' [Element ''td'' [Text '' ticketId - ID! ''],
                            Element ''td'' [Text ''Unique identifier'']],
            Element ''tr'' [Element ''td'' [Text ''no dash here''],
                            Element ''td'' [Text ''dropped'']],
            Element ''tr'' [Element ''td'' [Text ''lonely - Cell'']],
            Element ''tr'' [Element ''td'' [Text (''id2'' @ [CHR 0xA0] @ ''- ID'')],
                            Element ''td'' [Text ''Second'']],
            Element ''tr'' [Element ''td'' [Text (''a - '' @ [CHR 0xA0])],
                            Element ''td'' [Text ''dropped'']],
            Element ''tr'' [Element ''td'' [Text ''subject-String''],
                            Element ''td'' [Text ''Title'']]]]]"

section \<open>The walk of the example extractor\<close>















section \<open>Facts about strings\<close>

lemma startsWith_iff: "startsWith s t \<longleftrightarrow> (\<exists>r. s = t @ r)"
  by (induction s t rule: startsWith.induct) auto

lemma endsWith_iff: "endsWith s t \<longleftrightarrow> (\<exists>p. s = p @ t)"
proof -
  have "(\<exists>r. rev s = rev t @ r) \<longleftrightarrow> (\<exists>p. s = p @ t)"
  proof
    assume "\<exists>r. rev s = rev t @ r"
    then obtain r where "rev s = rev t @ r" ..
    then have "s = rev r @ t" by (metis rev_append rev_rev_ident)
    then show "\<exists>p. s = p @ t" ..
  next
    assume "\<exists>p. s = p @ t"
    then obtain p where "s = p @ t" ..
    then have "rev s = rev t @ rev p" by simp
    then show "\<exists>r. rev s = rev t @ r" ..
  qed
  then show ?thesis by (simp add: endsWith_def startsWith_iff)
qed

section \<open>Kind inference: the ordered rules\<close>

lemma upper_units_changed:
  "upper_units c = [of_char c] \<or> (upper_units c \<noteq> [] \<and> hd (upper_units c) \<noteq> of_char c)"
proof (cases "map_of (zip (lower_letters @ latin_smalls) (upper_letters @ latin_capitals)) c")
  case None
  then show ?thesis by (simp add: upper_units_def)
next
  case (Some d)
  then have "d \<noteq> c"
    by (auto simp: lower_letters_def latin_smalls_def upper_letters_def latin_capitals_def
        split: if_splits)
  then show ?thesis using Some by (simp add: upper_units_def)
qed

lemma upper_units_fixed_iff:
  "upper_units c = [of_char c] \<longleftrightarrow> c \<notin> set small_letters"
proof (cases "map_of (zip (lower_letters @ latin_smalls) (upper_letters @ latin_capitals)) c")
  case None
  then have "c \<notin> set (lower_letters @ latin_smalls)"
    unfolding map_of_eq_None_iff
    by (simp add: lower_letters_def latin_smalls_def upper_letters_def latin_capitals_def)
  then show ?thesis using None
    by (auto simp: upper_units_def small_letters_def)
next
  case (Some d)
  then have "d \<noteq> c \<and> c \<in> set (lower_letters @ latin_smalls)"
    by (auto simp: lower_letters_def latin_smalls_def upper_letters_def latin_capitals_def
        split: if_splits)
  then show ?thesis using Some by (simp add: upper_units_def small_letters_def)
qed

lemma toUpperCase_fixed_iff:
  "toUpperCase s = code_units s \<longleftrightarrow> (\<forall>c \<in> set s. upper_units c = [of_char c])"
proof (induction s)
  case Nil
  then show ?case by (simp add: toUpperCase_def code_units_def)
next
  case (Cons c s)
  show ?case
  proof (cases "upper_units c = [of_char c]")
    case True
    then show ?thesis using Cons by (simp add: toUpperCase_def code_units_def)
  next
    case False
    then have "upper_units c \<noteq> []" "hd (upper_units c) \<noteq> of_char c"
      using upper_units_changed [of c] by auto
    then have "upper_units c @ toUpperCase s \<noteq> of_char c # code_units s"
      by (cases "upper_units c") auto
    then show ?thesis using False by (simp add: toUpperCase_def code_units_def)
  qed
qed

text \<open>
  C4. \<open>inferTypeKind\<close> is a total function of the name alone and applies its rules in
  order: a name ending in "Input" is an INPUT_OBJECT; otherwise a name ending in "Enum",
  or equal to its own upper-case transform, is an ENUM; otherwise one of String, Int,
  Float, Boolean, ID, JSON is a SCALAR; otherwise the kind is OBJECT. INTERFACE and UNION
  are returned for no name. A name equals its upper-case transform exactly when it has
  no small letter.
\<close>

theorem inferTypeKind_rules:
  "inferTypeKind n =
     (if (\<exists>p. n = p @ ''Input'') then INPUT_OBJECT
      else if (\<exists>p. n = p @ ''Enum'') \<or> toUpperCase n = code_units n then ENUM
      else if n \<in> {''String'', ''Int'', ''Float'', ''Boolean'', ''ID'', ''JSON''} then SCALAR
      else OBJECT)
   \<and> (toUpperCase n = code_units n \<longleftrightarrow> set n \<inter> set small_letters = {})
   \<and> inferTypeKind n \<noteq> INTERFACE \<and> inferTypeKind n \<noteq> UNION"
proof -
  have rules: "inferTypeKind n =
     (if (\<exists>p. n = p @ ''Input'') then INPUT_OBJECT
      else if (\<exists>p. n = p @ ''Enum'') \<or> toUpperCase n = code_units n then ENUM
      else if n \<in> {''String'', ''Int'', ''Float'', ''Boolean'', ''ID'', ''JSON''} then SCALAR
      else OBJECT)"
    by (simp add: inferTypeKind_def endsWith_iff)
  have fixed: "toUpperCase n = code_units n \<longleftrightarrow> set n \<inter> set small_letters = {}"
    unfolding toUpperCase_fixed_iff upper_units_fixed_iff by blast
  have never: "inferTypeKind n \<noteq> INTERFACE \<and> inferTypeKind n \<noteq> UNION"
    by (simp add: inferTypeKind_def)
  show ?thesis by (rule conjI [OF rules conjI [OF fixed never]])
qed

lemma FooInput_facts:
  "toUpperCase ''FooInput'' \<noteq> code_units ''FooInput'' \<and> \<not> endsWith ''FooInput'' ''Enum''"
  by code_simp

lemma accent_facts:
  "inferTypeKind (''CAF'' @ [CHR 0xE9]) = OBJECT \<and> inferTypeKind ''ID'' = ENUM"
  by code_simp

text \<open>
  The precedence example: "FooInput" is neither all upper case nor ends in "Enum", and
  is an INPUT_OBJECT. A name with a small accented letter is not its own upper-case
  transform; "ID" is, and is an ENUM before the scalar rule is reached.
\<close>

theorem inferTypeKind_rules_witness:
  "inferTypeKind ''FooInput'' = INPUT_OBJECT
   \<and> toUpperCase ''FooInput'' \<noteq> code_units ''FooInput''
   \<and> \<not> (\<exists>p. ''FooInput'' = p @ ''Enum'')
   \<and> inferTypeKind (''CAF'' @ [CHR 0xE9]) = OBJECT
   \<and> inferTypeKind ''ID'' = ENUM"
proof -
  have r: "inferTypeKind ''FooInput'' =
     (if (\<exists>p. ''FooInput'' = p @ ''Input'') then INPUT_OBJECT
      else if (\<exists>p. ''FooInput'' = p @ ''Enum'')
              \<or> toUpperCase ''FooInput'' = code_units ''FooInput'' then ENUM
      else if ''FooInput'' \<in> {''String'', ''Int'', ''Float'', ''Boolean'', ''ID'', ''JSON''}
        then SCALAR
      else OBJECT)"
    using inferTypeKind_rules [of "''FooInput''"] by (rule conjunct1)
  have ex: "\<exists>p. ''FooInput'' = p @ ''Input''"
    by (rule exI [of _ "''Foo''"]) simp
  have a: "inferTypeKind ''FooInput'' = INPUT_OBJECT"
    by (subst r) (rule if_P [OF ex])
  have b: "toUpperCase ''FooInput'' \<noteq> code_units ''FooInput''"
    using FooInput_facts by (rule conjunct1)
  have "\<not> endsWith ''FooInput'' ''Enum''"
    using FooInput_facts by (rule conjunct2)
  then have c: "\<not> (\<exists>p. ''FooInput'' = p @ ''Enum'')"
    unfolding endsWith_iff .
  show ?thesis
    by (rule conjI [OF a conjI [OF b conjI [OF c accent_facts]]])
qed

section \<open>The scenario of the specification\<close>

text \<open>
  C1. On the scenario document the specification expects
  \<open>queries["getTicket"]\<close> to carry the one argument of the table. The code stores the
  entry with its description and without arguments: after the description the cursor
  stands on the table, the return-type loop finds neither "response" nor "returns" in
  it and moves on to the end of the siblings, and the arguments loop starts from an
  empty selection. The table parser, given that table, does produce the expected
  argument.
\<close>

theorem scenario_arguments_not_parsed:
  "obj_get (parseQueries (J :: string \<Rightarrow> js_error + 'j::equal) scenario_doc) ''getTicket'' =
     Some \<lparr>op_name = ''getTicket'', op_type = Query,
            op_description = Some ''Fetch a single ticket'',
            op_arguments = None, op_returnType = None, op_example = None\<rparr>
   \<and> parseArgumentsTable (select_tags [''table''] scenario_doc) =
       [\<lparr>f_name = ''ticketId'', f_type = ''ID!'',
         f_description = Some ''Unique identifier'', f_required = True\<rparr>]"
  unfolding scenario_doc_def page_def by code_simp

section \<open>The bounds of a section\<close>

text \<open>
  C2. Entry iteration is to stop at the next top-level heading in all three sections.
  \<open>parseQueries\<close> and \<open>parseMutations\<close> do; the loop of \<open>parseTypes\<close> has no such test
  and takes the entry "Beta" that follows the heading "Changelog".
\<close>

theorem types_section_runs_past_next_h2:
  "Object_keys (parseTypes (section_doc ''Types'')) = [''Alpha'', ''Beta'']
   \<and> Object_keys (parseQueries J (section_doc ''Queries'')) = [''Alpha'']
   \<and> Object_keys (parseMutations J (section_doc ''Mutations'')) = [''Alpha'']"
  unfolding section_doc_def page_def by code_simp


section \<open>Search\<close>

lemma str_includes_iff: "str_includes s t \<longleftrightarrow> (\<exists>a b. s = a @ t @ b)"
proof (induction s)
  case Nil
  then show ?case by auto
next
  case (Cons c cs)
  show ?case
  proof
    assume "str_includes (c # cs) t"
    then consider "startsWith (c # cs) t" | "str_includes cs t" by auto
    then show "\<exists>a b. c # cs = a @ t @ b"
    proof cases
      case 1
      then obtain r where "c # cs = t @ r" using startsWith_iff by blast
      then have "c # cs = [] @ t @ r" by simp
      then show ?thesis by blast
    next
      case 2
      then obtain a b where "cs = a @ t @ b" using Cons.IH by blast
      then have "c # cs = (c # a) @ t @ b" by simp
      then show ?thesis by blast
    qed
  next
    assume "\<exists>a b. c # cs = a @ t @ b"
    then obtain a b where ab: "c # cs = a @ t @ b" by blast
    show "str_includes (c # cs) t"
    proof (cases a)
      case Nil
      then have "startsWith (c # cs) t" using ab startsWith_iff by auto
      then show ?thesis by simp
    next
      case (Cons x a')
      then have "cs = a' @ t @ b" using ab by simp
      then have "str_includes cs t" using Cons.IH by blast
      then show ?thesis by simp
    qed
  qed
qed

lemma str_includes_empty: "str_includes s []"
proof -
  have "s = [] @ [] @ s" by simp
  then show ?thesis unfolding str_includes_iff by blast
qed

lemma includes_lower_iff:
  "str_includes (toLowerCase s) (toLowerCase q) \<longleftrightarrow> spec_ci_substring q s"
proof
  assume "str_includes (toLowerCase s) (toLowerCase q)"
  then obtain a b where "map lower_char s = a @ map lower_char q @ b"
    unfolding str_includes_iff toLowerCase_def by blast
  then obtain a' r where r: "s = a' @ r" "map lower_char r = map lower_char q @ b"
    by (metis map_eq_append_conv)
  then obtain m b' where "r = m @ b'" "map lower_char m = map lower_char q"
    by (metis map_eq_append_conv)
  then show "spec_ci_substring q s"
    unfolding spec_ci_substring_def toLowerCase_def using r by blast
next
  assume "spec_ci_substring q s"
  then obtain a m b where "s = a @ m @ b" "toLowerCase m = toLowerCase q"
    unfolding spec_ci_substring_def by blast
  then have "toLowerCase s = toLowerCase a @ toLowerCase q @ toLowerCase b"
    by (simp add: toLowerCase_def)
  then show "str_includes (toLowerCase s) (toLowerCase q)"
    unfolding str_includes_iff by blast
qed

lemma spec_ci_substring_name:
  "spec_ci_substring q [] \<Longrightarrow> spec_ci_substring q s"
  unfolding spec_ci_substring_def toLowerCase_def by auto

lemma opt_includes_iff:
  "spec_ci_substring q n \<or> opt_includes d (toLowerCase q)
     \<longleftrightarrow> spec_ci_substring q n \<or> spec_ci_substring_opt q d"
  unfolding opt_includes_def spec_ci_substring_opt_def
  using spec_ci_substring_name [of q n]
  by (cases d) (auto simp: includes_lower_iff)

lemma field_found_iff: "field_found (toLowerCase q) f \<longleftrightarrow> spec_field_matches q f"
  unfolding field_found_def spec_field_matches_def
  using opt_includes_iff [of q "f_name f" "f_description f"]
  by (auto simp: includes_lower_iff)

lemma enum_value_found_iff:
  "enum_value_found (toLowerCase q) v \<longleftrightarrow>
     spec_ci_substring q (ev_name v) \<or> spec_ci_substring_opt q (ev_description v)"
  unfolding enum_value_found_def
  using opt_includes_iff [of q "ev_name v" "ev_description v"]
  by (auto simp: includes_lower_iff)

lemma searchOperations_loop_filter:
  "searchOperations_loop sl vs results = results @ filter (operation_found sl) vs"
  by (induction vs arbitrary: results) (auto simp: operation_found_def)

lemma operation_found_iff:
  "operation_found (toLowerCase q) operation \<longleftrightarrow> spec_operation_matches q operation"
proof -
  have args: "(case op_arguments operation of None \<Rightarrow> False
          | Some args \<Rightarrow> list_ex (field_found (toLowerCase q)) args)
     \<longleftrightarrow> (\<exists>args a. op_arguments operation = Some args \<and> a \<in> set args \<and> spec_field_matches q a)"
    by (cases "op_arguments operation") (auto simp: list_ex_iff field_found_iff)
  show ?thesis
    unfolding operation_found_def spec_operation_matches_def args
    using opt_includes_iff [of q "op_name operation" "op_description operation"]
          opt_includes_iff [of q "op_name operation" "op_returnType operation"]
    by (auto simp: includes_lower_iff)
qed

lemma searchTypes_loop_filter:
  "searchTypes_loop sl vs results = results @ filter (type_found sl) vs"
  by (induction vs arbitrary: results) (auto simp: type_found_def)

lemma type_found_iff: "type_found (toLowerCase q) type \<longleftrightarrow> spec_type_matches q type"
proof -
  have fs: "(case ty_fields type of None \<Rightarrow> False
          | Some fs \<Rightarrow> list_ex (field_found (toLowerCase q)) fs)
     \<longleftrightarrow> (\<exists>fs f. ty_fields type = Some fs \<and> f \<in> set fs \<and> spec_field_matches q f)"
    by (cases "ty_fields type") (auto simp: list_ex_iff field_found_iff)
  have vs: "(case ty_enumValues type of None \<Rightarrow> False
          | Some enumValues \<Rightarrow> list_ex (enum_value_found (toLowerCase q)) enumValues)
     \<longleftrightarrow> (\<exists>vs v. ty_enumValues type = Some vs \<and> v \<in> set vs
            \<and> (spec_ci_substring q (ev_name v) \<or> spec_ci_substring_opt q (ev_description v)))"
    by (cases "ty_enumValues type") (auto simp: list_ex_iff enum_value_found_iff)
  show ?thesis
    unfolding type_found_def spec_type_matches_def fs vs
    using opt_includes_iff [of q "ty_name type" "ty_description type"]
    by (auto simp: includes_lower_iff)
qed

lemma operation_found_eq: "operation_found (toLowerCase q) = spec_operation_matches q"
  by (rule ext) (rule operation_found_iff)

lemma type_found_eq: "type_found (toLowerCase q) = spec_type_matches q"
  by (rule ext) (rule type_found_iff)

text \<open>
  C7, as amended. Searching a mapping of operations returns exactly the operations
  for which the query is a case-insensitive substring of the name, the description, the
  name, type or description of some argument, or the return type; searching a mapping
  of types returns exactly the types for which it is one of the name, the description,
  the name, type or description of some field, or the name or description of some enum
  value. The results keep the order of \<open>Object.values\<close> on the mapping: the entries
  under array-index names first, by ascending number, then the other entries in order
  of first insertion.
\<close>

theorem search_results:
  "searchOperations q operations =
     filter (spec_operation_matches q) (Object_values operations)
   \<and> searchTypes q tys = filter (spec_type_matches q) (Object_values tys)"
  by (simp add: searchOperations_def searchTypes_def searchOperations_loop_filter
      searchTypes_loop_filter operation_found_eq type_found_eq)

lemma ticket_search: "searchOperations ''TICKET'' [(''getTicketList'', ticket_list_op)] = [ticket_list_op]"
  by code_simp

text \<open>
  The operation "getTicketList" with the description "Fetch tickets" is found by the
  query "TICKET".
\<close>

theorem search_results_witness:
  "searchOperations ''TICKET'' [(''getTicketList'', ticket_list_op)] = [ticket_list_op]
   \<and> filter (spec_operation_matches ''TICKET'')
        (Object_values [(''getTicketList'', ticket_list_op)]) = [ticket_list_op]"
  using search_results [of "''TICKET''" "[(''getTicketList'', ticket_list_op)]"] ticket_search
  by simp

text \<open>
  The claim as worded puts the results in first-insertion order. The entry "b" is
  stored before the entry "1"; the search lists "1" first.
\<close>

theorem search_order_counterexample:
  "map fst (parseQueries no_json numbered_queries_doc) = [''b'', ''1'']
   \<and> map op_name (searchOperations [] (parseQueries no_json numbered_queries_doc)) = [''1'', ''b'']"
  unfolding numbered_queries_doc_def page_def by code_simp


section \<open>Documents without sections\<close>

lemma find_section_empty:
  "\<forall>e \<in> set (select_tags [''h2''] doc). toLowerCase (trim (elem_text e)) \<noteq> title
     \<Longrightarrow> find_section title doc = []"
  unfolding find_section_def by (simp add: filter_empty_conv)

text \<open>
  C5. When no \<open>h2\<close> heading of the document has, trimmed and in lower case, the text
  "queries", "mutations" or "types", parsing succeeds and the three mappings of the
  catalog are empty, with all three counts zero.
\<close>

theorem no_sections_empty_catalog:
  assumes "\<forall>e \<in> set (select_tags [''h2''] doc).
             toLowerCase (trim (elem_text e)) \<notin> {''queries'', ''mutations'', ''types''}"
      and "load html = Inr doc"
  shows "\<exists>c. parse_html load J html = Inr c
           \<and> queries c = [] \<and> mutations c = [] \<and> types c = []
           \<and> Object_keys (queries c) = [] \<and> Object_keys (mutations c) = []
           \<and> Object_keys (types c) = []
           \<and> summary c = \<lparr>totalQueries = 0, totalMutations = 0, totalTypes = 0\<rparr>"
proof -
  have q: "find_section ''queries'' doc = []"
    using assms(1) by (intro find_section_empty) auto
  have m: "find_section ''mutations'' doc = []"
    using assms(1) by (intro find_section_empty) auto
  have t: "find_section ''types'' doc = []"
    using assms(1) by (intro find_section_empty) auto
  show ?thesis
    using assms(2)
    by (simp add: parse_html_def parseAll_def parseQueries_def parseMutations_def
        parseTypes_def q m t Object_keys_def Object_entries_def)
qed

lemma plain_doc_h2:
  "\<forall>e \<in> set (select_tags [''h2''] plain_doc).
      toLowerCase (trim (elem_text e)) \<notin> {''queries'', ''mutations'', ''types''}"
  unfolding plain_doc_def page_def by code_simp

theorem no_sections_empty_catalog_witness:
  "\<exists>c. parse_html (\<lambda>h. Inr plain_doc) no_json ''<h1>API</h1>'' = Inr c
           \<and> queries c = [] \<and> mutations c = [] \<and> types c = []
           \<and> Object_keys (queries c) = [] \<and> Object_keys (mutations c) = []
           \<and> Object_keys (types c) = []
           \<and> summary c = \<lparr>totalQueries = 0, totalMutations = 0, totalTypes = 0\<rparr>"
  using no_sections_empty_catalog [OF plain_doc_h2, of "\<lambda>h. Inr plain_doc" "''<h1>API</h1>''" no_json]
  by simp

section \<open>Failure of the parse entry point\<close>

text \<open>
  C8. The parse entry point is to return a catalog for every input from which a tree
  can be built. The method \<open>parseArgumentsTable\<close> declares \<open>const arguments\<close>, which
  strict-mode code may not bind: it is the one method with such a name, loading the
  module fails with a \<open>SyntaxError\<close>, and so the entry point fails for every input,
  whatever tree the text would give.
\<close>

theorem module_does_not_load:
  "map fst (filter (\<lambda>m. strict_mode_error (snd m)) bound_names) = [''parseArgumentsTable'']
   \<and> load_module = Inl SyntaxError
   \<and> import_and_parse load J html = Inl SyntaxError"
proof -
  have culprit:
    "map fst (filter (\<lambda>m. strict_mode_error (snd m)) bound_names) = [''parseArgumentsTable'']"
    by code_simp
  have fails: "load_module = Inl SyntaxError"
    by code_simp
  have "import_and_parse load J html = Inl SyntaxError"
    by (simp add: import_and_parse_def fails)
  then show ?thesis using culprit fails by (intro conjI)
qed

section \<open>Endpoints\<close>

lemma ci_literal_Some:
  "ci_literal pat s = Some (m, r) \<Longrightarrow> s = m @ r \<and> toLowerCase m = pat"
  by (induction pat s arbitrary: m r rule: ci_literal.induct)
     (auto simp: toLowerCase_def split: if_splits option.splits)

lemma lazy_dots_then_lower:
  "lazy_dots_then url s = Some u \<Longrightarrow> toLowerCase u = url"
  by (induction url s rule: lazy_dots_then.induct)
     (auto dest: ci_literal_Some split: if_splits option.splits)

lemma match_endpoint_lower:
  "match_endpoint phrase url s = Some u \<Longrightarrow> toLowerCase u = url"
  by (induction phrase url s rule: match_endpoint.induct)
     (auto simp: match_endpoint_at_def dest: lazy_dots_then_lower split: if_splits option.splits)

lemma ci_literal_includes:
  "ci_literal pat s = Some (m, r) \<Longrightarrow> str_includes (toLowerCase s) pat"
proof -
  assume "ci_literal pat s = Some (m, r)"
  then have "s = m @ r" "toLowerCase m = pat" using ci_literal_Some by blast+
  then have "toLowerCase s = [] @ pat @ toLowerCase r" by (simp add: toLowerCase_def)
  then show ?thesis unfolding str_includes_iff by blast
qed

lemma match_endpoint_includes:
  "match_endpoint phrase url s = Some u \<Longrightarrow> str_includes (toLowerCase s) phrase"
proof (induction phrase url s rule: match_endpoint.induct)
  case (1 phrase url)
  then show ?case
    by (auto simp: match_endpoint_at_def dest: ci_literal_includes split: option.splits)
next
  case (2 phrase url c cs)
  show ?case
  proof (cases "match_endpoint_at phrase url (c # cs)")
    case None
    then have "str_includes (toLowerCase cs) phrase" using 2 by simp
    then show ?thesis by (simp add: toLowerCase_def)
  next
    case (Some v)
    then obtain m r where "ci_literal phrase (c # cs) = Some (m, r)"
      by (auto simp: match_endpoint_at_def split: option.splits)
    then show ?thesis by (rule ci_literal_includes)
  qed
qed

lemma endpoint_step_ok: "endpoints_ok obj \<Longrightarrow> endpoints_ok (endpoint_step obj el)"
  unfolding endpoints_ok_def endpoint_step_def
  by (auto simp: obj_assign_def Let_def dest: match_endpoint_lower split: option.splits)

lemma foldl_endpoint_step_ok:
  "endpoints_ok obj \<Longrightarrow> endpoints_ok (foldl endpoint_step obj els)"
  by (induction els arbitrary: obj) (auto simp: endpoint_step_ok)

lemma defaults_lower:
  "toLowerCase ''https://api.superops.ai/msp'' = ''https://api.superops.ai/msp''
   \<and> toLowerCase ''https://euapi.superops.ai/msp'' = ''https://euapi.superops.ai/msp''"
  by code_simp

lemma defaults_ok: "endpoints_ok [(''us'', us_default), (''eu'', eu_default)]"
  unfolding endpoints_ok_def us_default_def eu_default_def using defaults_lower by blast

lemma endpoint_step_unmentioned:
  "\<not> str_includes (toLowerCase (elem_text el)) ''us data center''
   \<Longrightarrow> \<not> str_includes (toLowerCase (elem_text el)) ''eu data center''
   \<Longrightarrow> endpoint_step obj el = obj"
  unfolding endpoint_step_def
  by (auto simp: Let_def dest: match_endpoint_includes split: option.splits)

lemma foldl_endpoint_step_unmentioned:
  "\<forall>el \<in> set els. \<not> str_includes (toLowerCase (elem_text el)) ''us data center''
        \<and> \<not> str_includes (toLowerCase (elem_text el)) ''eu data center''
   \<Longrightarrow> foldl endpoint_step obj els = obj"
  by (induction els arbitrary: obj) (auto simp: endpoint_step_unmentioned)

text \<open>
  C10, as amended. For every document the endpoints mapping of the catalog has exactly
  the keys "us" and "eu", so it is never empty; the address under "us" equals
  \<open>https://api.superops.ai/msp\<close> and the one under "eu" equals
  \<open>https://euapi.superops.ai/msp\<close> when letter case is ignored, being either the default
  or the address as the document writes it after the data-center phrase. When no
  \<open>p\<close>, \<open>div\<close> or \<open>code\<close> element mentions a data center, both addresses are the defaults
  themselves.
\<close>

theorem endpoints_up_to_case:
  "(\<exists>u e. endpoints (parseAll J doc) = [(''us'', u), (''eu'', e)]
       \<and> Object_keys (endpoints (parseAll J doc)) = [''us'', ''eu'']
       \<and> obj_get (endpoints (parseAll J doc)) ''us'' = Some u
       \<and> obj_get (endpoints (parseAll J doc)) ''eu'' = Some e
       \<and> toLowerCase u = ''https://api.superops.ai/msp''
       \<and> toLowerCase e = ''https://euapi.superops.ai/msp'')
   \<and> ((\<forall>el \<in> set (select_tags [''p'', ''div'', ''code''] doc).
          \<not> str_includes (toLowerCase (elem_text el)) ''us data center''
          \<and> \<not> str_includes (toLowerCase (elem_text el)) ''eu data center'')
        \<longrightarrow> endpoints (parseAll J doc)
              = [(''us'', ''https://api.superops.ai/msp''), (''eu'', ''https://euapi.superops.ai/msp'')])"
proof -
  have e: "endpoints (parseAll J doc) = parseEndpoints doc"
    by (simp add: parseAll_def Let_def)
  have "endpoints_ok (parseEndpoints doc)"
    unfolding parseEndpoints_def by (intro foldl_endpoint_step_ok defaults_ok)
  then obtain u x where ux: "parseEndpoints doc = [(''us'', u), (''eu'', x)]"
      "toLowerCase u = ''https://api.superops.ai/msp''"
      "toLowerCase x = ''https://euapi.superops.ai/msp''"
    unfolding endpoints_ok_def by blast
  have k: "Object_keys [(''us'', u), (''eu'', x)] = [''us'', ''eu'']"
    by (simp add: Object_keys_def Object_entries_def is_array_index_def is_digit_def)
  have 1: "\<exists>u e. endpoints (parseAll J doc) = [(''us'', u), (''eu'', e)]
       \<and> Object_keys (endpoints (parseAll J doc)) = [''us'', ''eu'']
       \<and> obj_get (endpoints (parseAll J doc)) ''us'' = Some u
       \<and> obj_get (endpoints (parseAll J doc)) ''eu'' = Some e
       \<and> toLowerCase u = ''https://api.superops.ai/msp''
       \<and> toLowerCase e = ''https://euapi.superops.ai/msp''"
    unfolding e using ux k by (simp add: obj_get_def)
  have 2: "(\<forall>el \<in> set (select_tags [''p'', ''div'', ''code''] doc).
          \<not> str_includes (toLowerCase (elem_text el)) ''us data center''
          \<and> \<not> str_includes (toLowerCase (elem_text el)) ''eu data center'')
        \<longrightarrow> endpoints (parseAll J doc)
              = [(''us'', ''https://api.superops.ai/msp''), (''eu'', ''https://euapi.superops.ai/msp'')]"
    unfolding e parseEndpoints_def
    by (auto simp: foldl_endpoint_step_unmentioned us_default_def eu_default_def)
  show ?thesis using 1 2 by blast
qed

lemma capitals_endpoints:
  "endpoints (parseAll no_json capitals_doc)
     = [(''us'', ''HTTPS://API.SUPEROPS.AI/MSP''), (''eu'', ''https://euapi.superops.ai/msp'')]"
  unfolding capitals_doc_def page_def by code_simp

lemma plain_unmentioned:
  "\<forall>el \<in> set (select_tags [''p'', ''div'', ''code''] plain_doc).
          \<not> str_includes (toLowerCase (elem_text el)) ''us data center''
          \<and> \<not> str_includes (toLowerCase (elem_text el)) ''eu data center''"
  unfolding plain_doc_def page_def by code_simp

text \<open>
  A document that mentions no data center keeps the defaults; one that writes the US
  address in capitals stores it in capitals.
\<close>

theorem endpoints_up_to_case_witness:
  "endpoints (parseAll no_json plain_doc)
     = [(''us'', ''https://api.superops.ai/msp''), (''eu'', ''https://euapi.superops.ai/msp'')]
   \<and> (\<exists>u e. endpoints (parseAll no_json capitals_doc) = [(''us'', u), (''eu'', e)]
         \<and> toLowerCase u = ''https://api.superops.ai/msp''
         \<and> toLowerCase e = ''https://euapi.superops.ai/msp'')"
proof -
  have "endpoints (parseAll no_json plain_doc)
     = [(''us'', ''https://api.superops.ai/msp''), (''eu'', ''https://euapi.superops.ai/msp'')]"
    using endpoints_up_to_case [of no_json plain_doc] plain_unmentioned by blast
  moreover have "\<exists>u e. endpoints (parseAll no_json capitals_doc) = [(''us'', u), (''eu'', e)]
         \<and> toLowerCase u = ''https://api.superops.ai/msp''
         \<and> toLowerCase e = ''https://euapi.superops.ai/msp''"
    using endpoints_up_to_case [of no_json capitals_doc] by blast
  ultimately show ?thesis by blast
qed

text \<open>
  The claim as worded maps "us" to \<open>https://api.superops.ai/msp\<close> for every document.
  The pattern is matched with case ignored and the captured text is stored as written.
\<close>

theorem endpoints_counterexample:
  "obj_get (endpoints (parseAll no_json capitals_doc)) ''us'' = Some ''HTTPS://API.SUPEROPS.AI/MSP''
   \<and> obj_get (endpoints (parseAll no_json capitals_doc)) ''us'' \<noteq> Some ''https://api.superops.ai/msp''"
  unfolding capitals_doc_def page_def by code_simp


section \<open>Duplicate names and the order of a mapping\<close>

lemma map_of_own_update: "map_of (own_update k v ps) = (map_of ps)(k \<mapsto> v)"
  by (induction ps) (auto simp: fun_eq_iff)

lemma keys_own_update:
  "map fst (own_update k v ps) = (if k \<in> set (map fst ps) then map fst ps else map fst ps @ [k])"
  by (induction ps) (auto simp: rev_image_eqI)

lemma store_all_snoc:
  "store_all nm (xs @ [x]) obj = obj_assign (nm x) x (store_all nm xs obj)"
  by (simp add: store_all_def)

lemma first_seen_snoc:
  "first_seen (ns @ [n]) = (if n \<in> set ns then first_seen ns else first_seen ns @ [n])"
  by (simp add: first_seen_def)

lemma set_first_seen: "set (first_seen ns) = set ns"
  by (simp add: first_seen_def)

lemma distinct_first_seen: "distinct (first_seen ns)"
  by (simp add: first_seen_def)

lemma store_all_keys:
  "map fst (store_all nm xs []) = first_seen (filter (\<lambda>n. n \<noteq> ''__proto__'') (map nm xs))"
proof (induction xs rule: rev_induct)
  case Nil
  then show ?case by (simp add: store_all_def first_seen_def)
next
  case (snoc x xs)
  then show ?case
    by (auto simp: store_all_snoc obj_assign_def keys_own_update first_seen_snoc set_first_seen)
qed

lemma store_all_get:
  "obj_get (store_all nm xs []) k =
     (if k = ''__proto__'' then None else List.find (\<lambda>x. nm x = k) (rev xs))"
proof (induction xs rule: rev_induct)
  case Nil
  then show ?case by (simp add: store_all_def obj_get_def)
next
  case (snoc x xs)
  then show ?case
    by (auto simp: store_all_snoc obj_assign_def obj_get_def map_of_own_update)
qed

lemma map_fst_insort:
  "map fst (insort_key (\<lambda>p. f (fst p)) x xs) = insort_key f (fst x) (map fst xs)"
  by (induction xs) auto

lemma map_fst_sort:
  "map fst (sort_key (\<lambda>p. f (fst p)) xs) = sort_key f (map fst xs)"
  by (induction xs) (auto simp: map_fst_insort)

lemma Object_keys_eq:
  "Object_keys obj =
     sort_key index_value (filter is_array_index (map fst obj))
       @ filter (\<lambda>k. \<not> is_array_index k) (map fst obj)"
  by (simp add: Object_keys_def Object_entries_def map_fst_sort filter_map comp_def)

lemma distinct_Object_keys: "distinct (map fst obj) \<Longrightarrow> distinct (Object_keys obj)"
  unfolding Object_keys_eq by (auto simp: distinct_map_filter)

lemma store_all_append:
  "store_all nm (xs @ ys) obj = store_all nm ys (store_all nm xs obj)"
  by (simp add: store_all_def)

lemma absent_name:
  "p \<notin> set (map nm xs) \<Longrightarrow>
     filter (\<lambda>n. n \<noteq> p) (map nm xs) = map nm xs
     \<and> List.find (\<lambda>x. nm x = p) (rev xs) = None"
  by (auto simp: find_None_iff filter_id_conv)

lemma store_all_last_write_wins:
  assumes "''__proto__'' \<notin> set (map nm xs)"
  shows "last_write_wins nm xs (store_all nm xs [])"
proof -
  have f: "filter (\<lambda>n. n \<noteq> ''__proto__'') (map nm xs) = map nm xs"
    using assms by (rule absent_name [THEN conjunct1])
  have n: "List.find (\<lambda>x. nm x = ''__proto__'') (rev xs) = None"
    using assms by (rule absent_name [THEN conjunct2])
  have keys: "map fst (store_all nm xs []) = first_seen (map nm xs)"
    using store_all_keys [of nm xs] f by simp
  have get: "obj_get (store_all nm xs []) k = List.find (\<lambda>x. nm x = k) (rev xs)" for k
    using store_all_get [of nm xs k] n by simp
  have "distinct (map fst (store_all nm xs []))"
    by (simp add: keys distinct_first_seen)
  then have "distinct (Object_keys (store_all nm xs []))"
    by (rule distinct_Object_keys)
  then show ?thesis
    unfolding last_write_wins_def
    by (simp add: get Object_keys_eq keys)
qed

lemma operations_loop_store_all:
  "operations_loop J type cur obj = store_all op_name (section_operations J type cur) obj"
proof (induction J type cur obj rule: operations_loop.induct)
  case (1 J type cur obj)
  show ?case
  proof (cases "cur \<noteq> [] \<and> \<not> sel_is [''h2''] cur")
    case True
    then show ?thesis
      using 1 [OF True]
      by (subst operations_loop.simps, subst section_operations.simps)
         (auto simp: store_all_append store_operation_def store_all_def split: option.splits)
  next
    case False
    then show ?thesis
      by (subst operations_loop.simps, subst section_operations.simps)
         (auto simp: store_all_def)
  qed
qed

lemma types_loop_store_all:
  "types_loop cur obj = store_all ty_name (section_types cur) obj"
proof (induction cur obj rule: types_loop.induct)
  case (1 cur obj)
  show ?case
  proof (cases "cur \<noteq> []")
    case True
    then show ?thesis
      using 1 [OF True]
      by (subst types_loop.simps, subst section_types.simps)
         (auto simp: store_all_append store_type_def store_all_def split: option.splits)
  next
    case False
    then show ?thesis
      by (subst types_loop.simps, subst section_types.simps) (auto simp: store_all_def)
  qed
qed

lemma sel_next_Nil: "sel_next [] = []"
  by (simp add: sel_next_def List.map_filter_simps)

lemma section_operations_Nil: "section_operations J type [] = []"
  by (subst section_operations.simps) simp

lemma section_types_Nil: "section_types [] = []"
  by (subst section_types.simps) simp

lemma parseQueries_store_all:
  "parseQueries J doc = store_all op_name (query_entries J doc) []"
  unfolding parseQueries_def query_entries_def Let_def
  by (cases "find_section ''queries'' doc = []")
     (simp_all add: operations_loop_store_all sel_next_Nil section_operations_Nil store_all_def)

lemma parseMutations_store_all:
  "parseMutations J doc = store_all op_name (mutation_entries J doc) []"
  unfolding parseMutations_def mutation_entries_def Let_def
  by (cases "find_section ''mutations'' doc = []")
     (simp_all add: operations_loop_store_all sel_next_Nil section_operations_Nil store_all_def)

lemma parseTypes_store_all:
  "parseTypes doc = store_all ty_name (type_entries doc) []"
  unfolding parseTypes_def type_entries_def Let_def
  by (cases "find_section ''types'' doc = []")
     (simp_all add: types_loop_store_all sel_next_Nil section_types_Nil store_all_def)

text \<open>
  C9, as amended. Let the entries of a section be the records built from its entry
  headings, in order, and let none of them be named \<open>__proto__\<close>. In the mapping of the
  section the value under a name is the record of the last entry with that name, so a
  later entry overwrites an earlier one of the same trimmed text; the keys are unique;
  and the iteration order lists the names that are array-index numerals first, by
  ascending number, and then the other names in the order in which each was first
  inserted.
\<close>

theorem duplicate_entries_overwrite:
  "(''__proto__'' \<notin> set (map op_name (query_entries J doc))
      \<longrightarrow> last_write_wins op_name (query_entries J doc) (parseQueries J doc))
   \<and> (''__proto__'' \<notin> set (map op_name (mutation_entries J doc))
      \<longrightarrow> last_write_wins op_name (mutation_entries J doc) (parseMutations J doc))
   \<and> (''__proto__'' \<notin> set (map ty_name (type_entries doc))
      \<longrightarrow> last_write_wins ty_name (type_entries doc) (parseTypes doc))"
  by (simp add: parseQueries_store_all parseMutations_store_all parseTypes_store_all
      store_all_last_write_wins)

lemma duplicate_doc_entries:
  "query_entries no_json duplicate_doc =
     [\<lparr>op_name = ''getTicket'', op_type = Query, op_description = Some ''first'',
       op_arguments = None, op_returnType = None, op_example = None\<rparr>,
      \<lparr>op_name = ''listTickets'', op_type = Query, op_description = None,
       op_arguments = None, op_returnType = None, op_example = None\<rparr>,
      \<lparr>op_name = ''getTicket'', op_type = Query, op_description = Some ''second'',
       op_arguments = None, op_returnType = None, op_example = None\<rparr>]"
  unfolding duplicate_doc_def page_def by code_simp

lemma duplicate_doc_names:
  "''__proto__'' \<notin> set (map op_name (query_entries no_json duplicate_doc))"
  unfolding duplicate_doc_entries by simp

text \<open>
  Two headings "getTicket", the second one written with a space before and a no-break
  space after the name, and a heading "listTickets" between them: the second record is
  the one stored, and "getTicket" keeps its first place among the keys.
\<close>

theorem duplicate_entries_overwrite_witness:
  "''__proto__'' \<notin> set (map op_name (query_entries no_json duplicate_doc))
   \<and> obj_get (parseQueries no_json duplicate_doc) ''getTicket'' =
     Some \<lparr>op_name = ''getTicket'', op_type = Query, op_description = Some ''second'',
            op_arguments = None, op_returnType = None, op_example = None\<rparr>
   \<and> Object_keys (parseQueries no_json duplicate_doc) = [''getTicket'', ''listTickets'']"
proof -
  have w: "last_write_wins op_name (query_entries no_json duplicate_doc)
             (parseQueries no_json duplicate_doc)"
    using duplicate_entries_overwrite [of no_json duplicate_doc] duplicate_doc_names
    by blast
  have g: "obj_get (parseQueries no_json duplicate_doc) ''getTicket'' =
      List.find (\<lambda>x. op_name x = ''getTicket'') (rev (query_entries no_json duplicate_doc))"
    using w unfolding last_write_wins_def by simp
  have k: "Object_keys (parseQueries no_json duplicate_doc) =
      sort_key index_value
        (filter is_array_index (first_seen (map op_name (query_entries no_json duplicate_doc))))
      @ filter (\<lambda>k. \<not> is_array_index k)
          (first_seen (map op_name (query_entries no_json duplicate_doc)))"
    using w unfolding last_write_wins_def by blast
  have "obj_get (parseQueries no_json duplicate_doc) ''getTicket'' =
     Some \<lparr>op_name = ''getTicket'', op_type = Query, op_description = Some ''second'',
            op_arguments = None, op_returnType = None, op_example = None\<rparr>
   \<and> Object_keys (parseQueries no_json duplicate_doc) = [''getTicket'', ''listTickets'']"
    unfolding g k duplicate_doc_entries by code_simp
  then show ?thesis using duplicate_doc_names by (intro conjI) simp_all
qed

text \<open>
  The claim as worded makes the iteration order the order of first insertion. The type
  "b" is inserted before the type "1", and the keys are listed as "1", "b".
\<close>

theorem insertion_order_counterexample:
  "map ty_name (type_entries numbered_types_doc) = [''b'', ''1'']
   \<and> Object_keys (parseTypes numbered_types_doc) = [''1'', ''b'']"
  unfolding numbered_types_doc_def page_def by code_simp


section \<open>Table rows\<close>

lemma str_includes_single: "str_includes s [c] \<longleftrightarrow> c \<in> set s"
proof
  assume "str_includes s [c]"
  then obtain a b where "s = a @ [c] @ b" unfolding str_includes_iff by blast
  then show "c \<in> set s" by simp
next
  assume "c \<in> set s"
  then obtain a b where "s = a @ c # b" by (meson split_list)
  then have "s = a @ [c] @ b" by simp
  then show "str_includes s [c]" unfolding str_includes_iff by blast
qed

lemma set_dropWhile_keep: "\<not> P c \<Longrightarrow> c \<in> set (dropWhile P xs) \<longleftrightarrow> c \<in> set xs"
  by (induction xs) auto

lemma set_trim_keep: "\<not> is_space c \<Longrightarrow> c \<in> set (trim s) \<longleftrightarrow> c \<in> set s"
  unfolding trim_def by (simp add: set_dropWhile_keep)

lemma bang_not_space: "\<not> is_space (CHR ''!'')"
  by (simp add: is_space_def)

lemma dash_facts: "\<not> is_space (CHR ''-'') \<and> \<not> is_word_char (CHR ''-'')"
  by (simp add: is_space_def is_word_char_def is_lower_def is_upper_def is_digit_def
      lower_letters_def upper_letters_def)

lemma space_not_word: "is_space c \<Longrightarrow> \<not> is_word_char c"
  by (auto simp: is_space_def is_word_char_def is_lower_def is_upper_def is_digit_def
      lower_letters_def upper_letters_def)

lemma match_type_info_Some:
  "match_type_info r = Some t \<Longrightarrow> \<exists>w. r = w @ t \<and> list_all is_space w \<and> dot_plus_end t"
proof (induction r)
  case Nil
  then show ?case by simp
next
  case (Cons c cs)
  show ?case
  proof (cases "is_space c \<and> match_type_info cs \<noteq> None")
    case True
    then have "match_type_info cs = Some t" using Cons.prems by auto
    then obtain w where "cs = w @ t" "list_all is_space w" "dot_plus_end t"
      using Cons.IH by blast
    then have "c # cs = (c # w) @ t \<and> list_all is_space (c # w) \<and> dot_plus_end t"
      using True by simp
    then show ?thesis by blast
  next
    case False
    then have "t = c # cs \<and> dot_plus_end (c # cs)"
      using Cons.prems by (auto split: if_splits option.splits)
    then have "c # cs = [] @ t \<and> list_all is_space [] \<and> dot_plus_end t" by simp
    then show ?thesis by blast
  qed
qed

lemma match_type_info_complete:
  "list_all is_space w \<Longrightarrow> dot_plus_end t \<Longrightarrow> match_type_info (w @ t) \<noteq> None"
proof (induction w)
  case Nil
  then obtain c cs where "t = c # cs" by (cases t) (auto simp: dot_plus_end_def)
  then show ?case using Nil by (auto split: option.splits)
next
  case (Cons x w)
  then show ?case by (auto split: option.splits)
qed

lemma match_name_type_Some:
  assumes "match_name_type s = Some (name, ty)"
  shows "spec_identifier name \<and>
         (\<exists>w1 w2. s = name @ w1 @ ''-'' @ w2 @ ty \<and> list_all is_space w1
                   \<and> list_all is_space w2 \<and> dot_plus_end ty)"
proof -
  obtain c cs where s: "s = c # cs" using assms by (cases s) (auto simp: match_name_type_def)
  have c: "is_ident_start c"
    using assms unfolding s match_name_type_def by (auto split: if_splits)
  obtain r where r: "dropWhile is_space (dropWhile is_word_char cs) = CHR ''-'' # r"
    using assms c unfolding s match_name_type_def
    by (auto split: if_splits list.splits)
  have m: "match_type_info r = Some ty" and n: "name = c # takeWhile is_word_char cs"
    using assms c r unfolding s match_name_type_def
    by (auto split: if_splits option.splits)
  obtain w2 where w2: "r = w2 @ ty" "list_all is_space w2" "dot_plus_end ty"
    using match_type_info_Some [OF m] by blast
  let ?w1 = "takeWhile is_space (dropWhile is_word_char cs)"
  have "cs = takeWhile is_word_char cs @ ?w1 @ dropWhile is_space (dropWhile is_word_char cs)"
    by simp
  then have "s = name @ ?w1 @ ''-'' @ w2 @ ty"
    unfolding s n r w2 by simp
  moreover have "list_all is_space ?w1"
    by (simp add: list_all_iff) (meson set_takeWhileD)
  moreover have "spec_identifier name"
    unfolding n spec_identifier_def using c
    by (simp add: list_all_iff) (meson set_takeWhileD)
  ultimately show ?thesis using w2 by blast
qed

lemma match_name_type_complete:
  assumes "spec_name_type_pattern s"
  shows "match_name_type s \<noteq> None"
proof -
  obtain name w1 w2 ty where d: "s = name @ w1 @ ''-'' @ w2 @ ty" "spec_identifier name"
      "list_all is_space w1" "list_all is_space w2" "dot_plus_end ty"
    using assms unfolding spec_name_type_pattern_def by blast
  obtain c n where n: "name = c # n" "is_ident_start c" "list_all is_word_char n"
    using d(2) unfolding spec_identifier_def by (cases name) auto
  let ?rest = "w1 @ ''-'' @ w2 @ ty"
  have 1: "dropWhile is_word_char (n @ ?rest) = dropWhile is_word_char ?rest"
    using n(3) by (intro dropWhile_append2) (simp add: list_all_iff)
  have 2: "dropWhile is_word_char ?rest = ?rest"
    using d(3) dash_facts space_not_word by (cases w1) auto
  have 3: "dropWhile is_space ?rest = dropWhile is_space (''-'' @ w2 @ ty)"
    using d(3) by (intro dropWhile_append2) (simp add: list_all_iff)
  have 4: "dropWhile is_space (dropWhile is_word_char (n @ ?rest)) = CHR ''-'' # w2 @ ty"
    unfolding 1 2 3 using dash_facts by simp
  have 5: "match_type_info (w2 @ ty) \<noteq> None"
    using d(4) d(5) by (rule match_type_info_complete)
  show ?thesis
    unfolding d(1) n(1) match_name_type_def using n(2) 4 5
    by (auto split: option.splits)
qed

lemma match_name_type_None_iff:
  "match_name_type s = None \<longleftrightarrow> \<not> spec_name_type_pattern s"
proof
  assume n: "match_name_type s = None"
  show "\<not> spec_name_type_pattern s"
  proof
    assume "spec_name_type_pattern s"
    then have "match_name_type s \<noteq> None" by (rule match_name_type_complete)
    then show False using n by simp
  qed
next
  assume a: "\<not> spec_name_type_pattern s"
  show "match_name_type s = None"
  proof (rule ccontr)
    assume "match_name_type s \<noteq> None"
    then obtain p where "match_name_type s = Some p" by (cases "match_name_type s") simp_all
    then obtain name ty where m: "match_name_type s = Some (name, ty)" by (cases p) simp
    have i: "spec_identifier name"
      using match_name_type_Some [OF m] by (rule conjunct1)
    have "\<exists>w1 w2. s = name @ w1 @ ''-'' @ w2 @ ty \<and> list_all is_space w1
                   \<and> list_all is_space w2 \<and> dot_plus_end ty"
      using match_name_type_Some [OF m] by (rule conjunct2)
    then obtain w1 w2 where d: "s = name @ w1 @ ''-'' @ w2 @ ty" "list_all is_space w1"
        "list_all is_space w2" "dot_plus_end ty"
      by (elim exE conjE)
    have "spec_name_type_pattern s"
      unfolding spec_name_type_pattern_def
    proof (intro exI conjI)
      show "s = name @ w1 @ ''-'' @ w2 @ ty" by (rule d(1))
      show "spec_identifier name" by (rule i)
      show "list_all is_space w1" by (rule d(2))
      show "list_all is_space w2" by (rule d(3))
      show "dot_plus_end ty" by (rule d(4))
    qed
    then show False using a by simp
  qed
qed

lemma required_iff_bang:
  "str_includes typeInfo ''!'' \<longleftrightarrow> CHR ''!'' \<in> set (trim typeInfo)"
  by (simp add: str_includes_single set_trim_keep bang_not_space)

lemma field_of_row_cases:
  "field_of_row row =
     (case sel_find ''td'' [row] of
        cell0 # cell1 # others \<Rightarrow>
          (case match_name_type (trim (elem_text cell0)) of
             Some (name, typeInfo) \<Rightarrow>
               [\<lparr>f_name = name, f_type = trim typeInfo,
                 f_description = Some (trim (elem_text cell1)),
                 f_required = str_includes typeInfo ''!''\<rparr>]
           | None \<Rightarrow> [])
      | _ \<Rightarrow> [])"
  unfolding field_of_row_def Let_def by (simp split: list.splits)

lemma argument_of_row_eq: "argument_of_row row = field_of_row row"
  unfolding argument_of_row_def field_of_row_def by simp

lemma field_of_row_record:
  assumes "f \<in> set (field_of_row row)"
  shows "(f_required f \<longleftrightarrow> CHR ''!'' \<in> set (f_type f)) \<and> spec_identifier (f_name f)"
proof (cases "sel_find ''td'' [row]")
  case Nil
  then show ?thesis using assms unfolding field_of_row_cases by simp
next
  case c0: (Cons cell0 rest)
  show ?thesis
  proof (cases rest)
    case Nil
    then show ?thesis using assms c0 unfolding field_of_row_cases by simp
  next
    case c1: (Cons cell1 others)
    show ?thesis
    proof (cases "match_name_type (trim (elem_text cell0))")
      case None
      then show ?thesis using assms c0 c1 unfolding field_of_row_cases by simp
    next
      case (Some p)
      obtain name typeInfo where p: "p = (name, typeInfo)" by (cases p)
      have m: "match_name_type (trim (elem_text cell0)) = Some (name, typeInfo)"
        using Some p by simp
      have f: "f = \<lparr>f_name = name, f_type = trim typeInfo,
                 f_description = Some (trim (elem_text cell1)),
                 f_required = str_includes typeInfo ''!''\<rparr>"
        using assms c0 c1 m unfolding field_of_row_cases by simp
      show ?thesis
        unfolding f using match_name_type_Some [OF m] by (simp add: required_iff_bang)
    qed
  qed
qed

lemma spec_name_type_pattern_iff:
  "spec_name_type_pattern s \<longleftrightarrow> match_name_type s \<noteq> None"
  using match_name_type_None_iff [of s] by simp

lemma field_of_row_emits:
  "field_of_row row \<noteq> [] \<longleftrightarrow>
     (\<exists>cell0 cell1 others. sel_find ''td'' [row] = cell0 # cell1 # others
        \<and> spec_name_type_pattern (trim (elem_text cell0)))"
  unfolding field_of_row_cases spec_name_type_pattern_iff
  by (auto split: list.splits option.splits)

lemma field_of_row_length: "length (field_of_row row) \<le> 1"
  unfolding field_of_row_cases by (auto split: list.splits option.splits)

text \<open>
  C3. Every record that \<open>parseFieldsTable\<close> and \<open>parseArgumentsTable\<close> emit for a table has
  its required flag set exactly when its stored type contains the character \<open>!\<close>, and
  its name is an identifier. The records of a table are those of its body rows, at most
  one for each row, and a row emits a record exactly when it has at least two cells and
  its first cell, trimmed, matches the pattern; a row whose first cell does not match
  emits nothing.
\<close>

theorem table_records:
  "(\<forall>f \<in> set (parseFieldsTable table) \<union> set (parseArgumentsTable table).
       (f_required f \<longleftrightarrow> CHR ''!'' \<in> set (f_type f)) \<and> spec_identifier (f_name f))
   \<and> parseFieldsTable table = concat (map field_of_row (find_tbody_tr table))
   \<and> parseArgumentsTable table = concat (map argument_of_row (find_tbody_tr table))
   \<and> (\<forall>row. length (field_of_row row) \<le> 1 \<and> argument_of_row row = field_of_row row
         \<and> (field_of_row row \<noteq> [] \<longleftrightarrow>
              (\<exists>cell0 cell1 others. sel_find ''td'' [row] = cell0 # cell1 # others
                 \<and> spec_name_type_pattern (trim (elem_text cell0)))))"
proof -
  have "\<forall>f \<in> set (parseFieldsTable table) \<union> set (parseArgumentsTable table).
       (f_required f \<longleftrightarrow> CHR ''!'' \<in> set (f_type f)) \<and> spec_identifier (f_name f)"
    unfolding parseFieldsTable_def parseArgumentsTable_def
    by (auto simp: argument_of_row_eq dest: field_of_row_record)
  moreover have "\<forall>row. length (field_of_row row) \<le> 1 \<and> argument_of_row row = field_of_row row
         \<and> (field_of_row row \<noteq> [] \<longleftrightarrow>
              (\<exists>cell0 cell1 others. sel_find ''td'' [row] = cell0 # cell1 # others
                 \<and> spec_name_type_pattern (trim (elem_text cell0))))"
    using field_of_row_length argument_of_row_eq field_of_row_emits by blast
  ultimately show ?thesis
    by (simp add: parseFieldsTable_def parseArgumentsTable_def)
qed

lemma mixed_table_fields:
  "parseFieldsTable (select_tags [''table''] mixed_table_doc) =
     [\<lparr>f_name = ''ticketId'', f_type = ''ID!'', f_description = Some ''Unique identifier'',
       f_required = True\<rparr>,
      \<lparr>f_name = ''id2'', f_type = ''ID'', f_description = Some ''Second'',
       f_required = False\<rparr>,
      \<lparr>f_name = ''subject'', f_type = ''String'', f_description = Some ''Title'',
       f_required = False\<rparr>]"
  unfolding mixed_table_doc_def page_def by code_simp

text \<open>
  A table with a required field, a row without a dash, a row with one cell, a row with
  a no-break space before the dash, a row whose type is only a no-break space, and an
  optional field: three records, flagged as their types say.
\<close>

theorem table_records_witness:
  "parseFieldsTable (select_tags [''table''] mixed_table_doc) =
     [\<lparr>f_name = ''ticketId'', f_type = ''ID!'', f_description = Some ''Unique identifier'',
       f_required = True\<rparr>,
      \<lparr>f_name = ''id2'', f_type = ''ID'', f_description = Some ''Second'',
       f_required = False\<rparr>,
      \<lparr>f_name = ''subject'', f_type = ''String'', f_description = Some ''Title'',
       f_required = False\<rparr>]
   \<and> CHR ''!'' \<in> set ''ID!'' \<and> CHR ''!'' \<notin> set ''ID'' \<and> CHR ''!'' \<notin> set ''String''
   \<and> spec_identifier ''ticketId'' \<and> spec_identifier ''id2'' \<and> spec_identifier ''subject''"
  using table_records [of "select_tags [''table''] mixed_table_doc"] mixed_table_fields
  by simp


section \<open>Example extraction\<close>



















end
